theory Spec2Isabelle
  imports Main
begin

section \<open>Errors\<close>

text \<open>
  The Python exceptions the modelled functions can raise. The string is the name
  the interpreter reports (the unbound variable, the missing attribute or group).
\<close>

datatype error =
    NameError string
  | UnboundLocalError string
  | AttributeError string
  | TypeError string
  | IndexError string
  | ValueError string

section \<open>Python strings\<close>

text \<open>
  A Python \<^verbatim>\<open>str\<close> is a sequence of Unicode code points; \<^verbatim>\<open>len\<close> counts code
  points. Code point 10 is the line feed, 9 the tab, 32 the space.
\<close>

type_synonym ustr = "nat list"

text \<open>
  The whitespace of \<^verbatim>\<open>str.strip()\<close>, \<^verbatim>\<open>str.isspace()\<close> and of \<^verbatim>\<open>\s\<close> in a
  \<^verbatim>\<open>str\<close> pattern: U+0009..U+000D, U+001C..U+0020, U+0085, U+00A0, U+1680,
  U+2000..U+200A, U+2028, U+2029, U+202F, U+205F, U+3000.
\<close>

definition is_space :: "nat \<Rightarrow> bool" where
  "is_space c \<longleftrightarrow>
     (9 \<le> c \<and> c \<le> 13) \<or> (28 \<le> c \<and> c \<le> 32) \<or> c = 133 \<or> c = 160 \<or> c = 5760
     \<or> (8192 \<le> c \<and> c \<le> 8202) \<or> c = 8232 \<or> c = 8233 \<or> c = 8239 \<or> c = 8287
     \<or> c = 12288"

definition strip :: "ustr \<Rightarrow> ustr" where
  "strip s = rev (dropWhile is_space (rev (dropWhile is_space s)))"

text \<open>
  Slice bounds: a negative bound counts from the end, and every bound is clamped to
  \<open>0..len\<close>. \<open>py_slice xs lo hi\<close> is \<^verbatim>\<open>xs[lo:hi]\<close>; \<open>None\<close> is an omitted bound.
\<close>

definition slice_bound :: "nat \<Rightarrow> int \<Rightarrow> nat" where
  "slice_bound n i = (if i < 0 then nat (max 0 (int n + i)) else min (nat i) n)"

definition py_slice :: "'a list \<Rightarrow> int option \<Rightarrow> int option \<Rightarrow> 'a list" where
  "py_slice xs lo hi =
     (let a = (case lo of None \<Rightarrow> 0 | Some i \<Rightarrow> slice_bound (length xs) i);
          b = (case hi of None \<Rightarrow> length xs | Some j \<Rightarrow> slice_bound (length xs) j)
      in take (b - a) (drop a xs))"

text \<open>
  \<^verbatim>\<open>s.find(sub, start, end)\<close> and \<^verbatim>\<open>s.rfind(sub, start, end)\<close>: the lowest (highest)
  index \<open>i\<close> with \<open>start \<le> i\<close> and \<open>i + len(sub) \<le> end\<close> at which \<open>sub\<close> occurs, or
  \<open>-1\<close>. The bounds are adjusted as the interpreter does: \<open>end\<close> is clamped to the
  length, a negative bound counts from the end and stops at 0, and \<open>start\<close> is not
  clamped from above.
\<close>

definition find_start :: "nat \<Rightarrow> int \<Rightarrow> nat" where
  "find_start n i = (if i < 0 then nat (max 0 (int n + i)) else nat i)"

definition occurs_at :: "ustr \<Rightarrow> ustr \<Rightarrow> nat \<Rightarrow> bool" where
  "occurs_at s sub i \<longleftrightarrow> take (length sub) (drop i s) = sub"

definition find_positions :: "ustr \<Rightarrow> ustr \<Rightarrow> int \<Rightarrow> int option \<Rightarrow> nat list" where
  "find_positions s sub start end =
     (let a = find_start (length s) start;
          b = (case end of None \<Rightarrow> length s | Some j \<Rightarrow> slice_bound (length s) j)
      in if a + length sub \<le> b then filter (occurs_at s sub) [a..<Suc (b - length sub)] else [])"

definition py_find :: "ustr \<Rightarrow> ustr \<Rightarrow> int \<Rightarrow> int option \<Rightarrow> int" where
  "py_find s sub start end =
     (case find_positions s sub start end of [] \<Rightarrow> - 1 | i # _ \<Rightarrow> int i)"

definition py_rfind :: "ustr \<Rightarrow> ustr \<Rightarrow> int \<Rightarrow> int option \<Rightarrow> int" where
  "py_rfind s sub start end =
     (case rev (find_positions s sub start end) of [] \<Rightarrow> - 1 | i # _ \<Rightarrow> int i)"

text \<open>\<^verbatim>\<open>sep.join(parts)\<close> and \<^verbatim>\<open>s.split("\n")\<close>.\<close>

fun join :: "ustr \<Rightarrow> ustr list \<Rightarrow> ustr" where
  "join sep [] = []"
| "join sep [x] = x"
| "join sep (x # y # ys) = x @ sep @ join sep (y # ys)"

fun split_nl :: "ustr \<Rightarrow> ustr list" where
  "split_nl [] = [[]]"
| "split_nl (c # cs) =
     (if c = 10 then [] # split_nl cs
      else (case split_nl cs of [] \<Rightarrow> [[c]] | l # ls \<Rightarrow> (c # l) # ls))"

text \<open>
  \<^verbatim>\<open>s.splitlines()\<close>: lines end at LF, CR (CR LF counts once), VT, FF, FS, GS, RS, NEL,
  LS and PS; the result has no empty last line.
\<close>

definition is_linebreak :: "nat \<Rightarrow> bool" where
  "is_linebreak c \<longleftrightarrow>
     (10 \<le> c \<and> c \<le> 13) \<or> (28 \<le> c \<and> c \<le> 30) \<or> c = 133 \<or> c = 8232 \<or> c = 8233"

fun splitlines_acc :: "ustr \<Rightarrow> ustr \<Rightarrow> ustr list" where
  "splitlines_acc cur [] = (if cur = [] then [] else [cur])"
| "splitlines_acc cur [c] = (if is_linebreak c then [cur] else [cur @ [c]])"
| "splitlines_acc cur (c # d # cs) =
     (if c = 13 \<and> d = 10 then cur # splitlines_acc [] cs
      else if is_linebreak c then cur # splitlines_acc [] (d # cs)
      else splitlines_acc (cur @ [c]) (d # cs))"

definition splitlines :: "ustr \<Rightarrow> ustr list" where
  "splitlines s = splitlines_acc [] s"

section \<open>The interpreter's Unicode tables\<close>

text \<open>
  The character database behind \<^verbatim>\<open>unicodedata\<close>, \<^verbatim>\<open>str.upper\<close> and the classes
  \<^verbatim>\<open>\w\<close>, \<^verbatim>\<open>\d\<close> and case-insensitive matching of \<^verbatim>\<open>re\<close> is part of the
  interpreter, not of the repository. The modelled functions take it as a parameter:
  \<open>u_alnum\<close> is \<^verbatim>\<open>str.isalnum\<close> of one character, \<open>u_decimal\<close> is
  \<^verbatim>\<open>str.isdecimal\<close>, \<open>u_lower\<close> and \<open>u_upper\<close> are the simple case mappings,
  \<open>u_upper_str\<close> is \<^verbatim>\<open>str.upper\<close>, \<open>u_category_C\<close> says that the general category
  starts with \<^verbatim>\<open>C\<close>, and \<open>u_nfkc\<close> is \<^verbatim>\<open>unicodedata.normalize("NFKC", s)\<close>.
\<close>

record ucd =
  u_alnum :: "nat \<Rightarrow> bool"
  u_decimal :: "nat \<Rightarrow> bool"
  u_lower :: "nat \<Rightarrow> nat"
  u_upper :: "nat \<Rightarrow> nat"
  u_upper_str :: "ustr \<Rightarrow> ustr"
  u_category_C :: "nat \<Rightarrow> bool"
  u_nfkc :: "ustr \<Rightarrow> ustr"

text \<open>
  The tables on Basic Latin and the Russian alphabet (U+0410..U+044F, U+0401, U+0451),
  for evaluating the functions on texts written in these characters. Other code points
  are taken as caseless, not alphanumeric and unchanged by NFKC, which is what the
  interpreter does for the punctuation used below but not for every code point.
\<close>

definition ru_upper :: "nat \<Rightarrow> nat" where
  "ru_upper c =
     (if 97 \<le> c \<and> c \<le> 122 then c - 32
      else if 1072 \<le> c \<and> c \<le> 1103 then c - 32
      else if c = 1105 then 1025 else c)"

definition ru_lower :: "nat \<Rightarrow> nat" where
  "ru_lower c =
     (if 65 \<le> c \<and> c \<le> 90 then c + 32
      else if 1040 \<le> c \<and> c \<le> 1071 then c + 32
      else if c = 1025 then 1105 else c)"

definition ucd_ru :: ucd where
  "ucd_ru =
     \<lparr>u_alnum = (\<lambda>c. (48 \<le> c \<and> c \<le> 57) \<or> (65 \<le> c \<and> c \<le> 90) \<or> (97 \<le> c \<and> c \<le> 122)
                     \<or> (1040 \<le> c \<and> c \<le> 1103) \<or> c = 1025 \<or> c = 1105),
      u_decimal = (\<lambda>c. 48 \<le> c \<and> c \<le> 57),
      u_lower = ru_lower,
      u_upper = ru_upper,
      u_upper_str = map ru_upper,
      u_category_C = (\<lambda>c. c < 32 \<or> (127 \<le> c \<and> c \<le> 159) \<or> c = 173),
      u_nfkc = (\<lambda>s. s)\<rparr>"

section \<open>Regular expressions\<close>

text \<open>
  The part of Python's \<^verbatim>\<open>re\<close> that the modules' patterns use, as a backtracking
  matcher with the priorities of the library: alternatives are tried left to right,
  repetitions are greedy, and the first way to match wins. \<open>Behind\<close> is a
  one-character look-behind \<^verbatim>\<open>(?<=[...])\<close>, \<open>Grp\<close> a capturing group, \<open>Rep r lo hi\<close>
  the repetition \<^verbatim>\<open>r{lo,hi}\<close> (no upper bound for \<open>None\<close>), \<open>Dot\<close> any character but
  the line feed.
\<close>

datatype citem = CChar nat | CRange nat nat | CSpace | CWord | CDigit

datatype rx =
    Lit nat
  | Cls "citem list"
  | Dot
  | Bol
  | Eol
  | Eps
  | Behind "citem list"
  | Seq rx rx
  | Alt rx rx
  | Grp string rx
  | Rep rx nat "nat option"

record re_flags =
  ignorecase :: bool
  multiline :: bool

definition no_flags :: re_flags where
  "no_flags = \<lparr>ignorecase = False, multiline = False\<rparr>"

definition flags_I :: re_flags where
  "flags_I = \<lparr>ignorecase = True, multiline = False\<rparr>"

definition flags_M :: re_flags where
  "flags_M = \<lparr>ignorecase = False, multiline = True\<rparr>"

definition flags_IM :: re_flags where
  "flags_IM = \<lparr>ignorecase = True, multiline = True\<rparr>"

fun item_has :: "ucd \<Rightarrow> citem \<Rightarrow> nat \<Rightarrow> bool" where
  "item_has U (CChar a) c = (c = a)"
| "item_has U (CRange a b) c = (a \<le> c \<and> c \<le> b)"
| "item_has U CSpace c = is_space c"
| "item_has U CWord c = (u_alnum U c \<or> c = 95)"
| "item_has U CDigit c = u_decimal U c"

text \<open>
  With \<^verbatim>\<open>IGNORECASE\<close> a literal matches a character with the same lower case, and a
  class matches a character whose lower or upper case is in the class. (The library
  also knows a few extra equivalences between code points outside the alphabets used
  here; they are left out.)
\<close>

definition cls_match :: "ucd \<Rightarrow> re_flags \<Rightarrow> citem list \<Rightarrow> nat \<Rightarrow> bool" where
  "cls_match U F items c =
     (if ignorecase F
      then list_ex (\<lambda>i. item_has U i (u_lower U c)) items
           \<or> list_ex (\<lambda>i. item_has U i (u_upper U c)) items
      else list_ex (\<lambda>i. item_has U i c) items)"

definition lit_match :: "ucd \<Rightarrow> re_flags \<Rightarrow> nat \<Rightarrow> nat \<Rightarrow> bool" where
  "lit_match U F a c = (if ignorecase F then u_lower U c = u_lower U a else c = a)"

fun rsize :: "rx \<Rightarrow> nat" where
  "rsize (Seq a b) = Suc (rsize a + rsize b)"
| "rsize (Alt a b) = Suc (rsize a + rsize b)"
| "rsize (Grp g a) = Suc (rsize a)"
| "rsize (Rep a lo hi) = Suc (rsize a)"
| "rsize _ = 0"

text \<open>
  The matcher reads the text from a cursor: the character before it (\<open>None\<close> at the
  start of the text), the rest of the text, and the offset. The continuation \<open>k\<close> is
  what remains to be matched; a failure of \<open>k\<close> makes the matcher try its next
  alternative. A repetition only goes on after an iteration that consumed something.
  Captures are a list of (group, start, end), the latest first.
\<close>

type_synonym caps = "(string \<times> nat \<times> nat) list"

type_synonym 'r cont = "nat option \<Rightarrow> ustr \<Rightarrow> nat \<Rightarrow> caps \<Rightarrow> 'r option"

function mt :: "ucd \<Rightarrow> re_flags \<Rightarrow> rx \<Rightarrow> 'r cont \<Rightarrow> 'r cont" where
  "mt U F (Lit a) k pv r n c =
     (case r of [] \<Rightarrow> None
      | x # xs \<Rightarrow> if lit_match U F a x then k (Some x) xs (Suc n) c else None)"
| "mt U F (Cls items) k pv r n c =
     (case r of [] \<Rightarrow> None
      | x # xs \<Rightarrow> if cls_match U F items x then k (Some x) xs (Suc n) c else None)"
| "mt U F Dot k pv r n c =
     (case r of [] \<Rightarrow> None | x # xs \<Rightarrow> if x \<noteq> 10 then k (Some x) xs (Suc n) c else None)"
| "mt U F Bol k pv r n c =
     (if pv = None \<or> (multiline F \<and> pv = Some 10) then k pv r n c else None)"
| "mt U F Eol k pv r n c =
     (if r = [] \<or> (if multiline F then hd r = 10 else r = [10]) then k pv r n c else None)"
| "mt U F Eps k pv r n c = k pv r n c"
| "mt U F (Behind items) k pv r n c =
     (case pv of None \<Rightarrow> None
      | Some x \<Rightarrow> if cls_match U F items x then k pv r n c else None)"
| "mt U F (Seq a b) k pv r n c = mt U F a (mt U F b k) pv r n c"
| "mt U F (Alt a b) k pv r n c =
     (case mt U F a k pv r n c of Some v \<Rightarrow> Some v | None \<Rightarrow> mt U F b k pv r n c)"
| "mt U F (Grp g a) k pv r n c =
     mt U F a (\<lambda>pv' r' n' c'. k pv' r' n' ((g, n, n') # c')) pv r n c"
| "mt U F (Rep a lo hi) k pv r n c =
     (if hi = Some 0 then k pv r n c
      else (case mt U F a
                   (\<lambda>pv' r' n' c'.
                      if length r' < length r
                      then mt U F (Rep a (lo - 1) (map_option (\<lambda>h. h - 1) hi)) k pv' r' n' c'
                      else None) pv r n c of
              Some v \<Rightarrow> Some v
            | None \<Rightarrow> if lo = 0 then k pv r n c else None))"
  by pat_completeness auto
termination
  by (relation "measures [\<lambda>(U, F, x, k, pv, r, n, c). rsize x,
                          \<lambda>(U, F, x, k, pv, r, n, c). length r]") auto

text \<open>A match: start, end, captures, and the cursor after it.\<close>

type_synonym rmatch = "nat \<times> nat \<times> caps"

definition match_here ::
  "ucd \<Rightarrow> re_flags \<Rightarrow> rx \<Rightarrow> nat option \<Rightarrow> ustr \<Rightarrow> nat \<Rightarrow> (rmatch \<times> nat option \<times> ustr) option" where
  "match_here U F x pv r n = mt U F x (\<lambda>pv' r' n' c'. Some ((n, n', c'), pv', r')) pv r n []"

text \<open>\<^verbatim>\<open>pattern.match(s)\<close>: a match at the start of \<open>s\<close>.\<close>

definition re_match :: "ucd \<Rightarrow> re_flags \<Rightarrow> rx \<Rightarrow> ustr \<Rightarrow> rmatch option" where
  "re_match U F x s = map_option fst (match_here U F x None s 0)"

text \<open>The leftmost match at or after the cursor.\<close>

fun search_from ::
  "ucd \<Rightarrow> re_flags \<Rightarrow> rx \<Rightarrow> nat option \<Rightarrow> ustr \<Rightarrow> nat \<Rightarrow> (rmatch \<times> nat option \<times> ustr) option" where
  "search_from U F x pv [] n = match_here U F x pv [] n"
| "search_from U F x pv (a # r) n =
     (case match_here U F x pv (a # r) n of
        Some m \<Rightarrow> Some m
      | None \<Rightarrow> search_from U F x (Some a) r (Suc n))"

text \<open>\<^verbatim>\<open>pattern.search(s)\<close>.\<close>

definition re_search :: "ucd \<Rightarrow> re_flags \<Rightarrow> rx \<Rightarrow> ustr \<Rightarrow> rmatch option" where
  "re_search U F x s = map_option fst (search_from U F x None s 0)"

text \<open>
  \<^verbatim>\<open>pattern.finditer(s)\<close>: the matches from left to right, each search starting where
  the match before ended. None of the modules' patterns matches the empty string; an
  empty match would end the list here.
\<close>

function finditer_from ::
  "ucd \<Rightarrow> re_flags \<Rightarrow> rx \<Rightarrow> nat option \<Rightarrow> ustr \<Rightarrow> nat \<Rightarrow> rmatch list" where
  "finditer_from U F x pv r n =
     (case search_from U F x pv r n of
        None \<Rightarrow> []
      | Some (m, pv', r') \<Rightarrow>
          m # (if length r' < length r then finditer_from U F x pv' r' (fst (snd m)) else []))"
  by pat_completeness auto
termination
  by (relation "measure (\<lambda>(U, F, x, pv, r, n). length r)") auto

definition finditer :: "ucd \<Rightarrow> re_flags \<Rightarrow> rx \<Rightarrow> ustr \<Rightarrow> rmatch list" where
  "finditer U F x s = finditer_from U F x None s 0"

text \<open>\<^verbatim>\<open>m.group(g)\<close>: the text of a group, \<open>None\<close> when the group did not take part.\<close>

definition group :: "ustr \<Rightarrow> rmatch \<Rightarrow> string \<Rightarrow> ustr option" where
  "group s m g =
     (case map_of (snd (snd m)) g of
        None \<Rightarrow> None
      | Some (a, b) \<Rightarrow> Some (take (b - a) (drop a s)))"

text \<open>
  \<^verbatim>\<open>pattern.split(s)\<close> for a pattern without groups, and \<^verbatim>\<open>pattern.sub(repl, s)\<close>
  with the replacement computed from the match.
\<close>

fun split_pieces :: "ustr \<Rightarrow> nat \<Rightarrow> rmatch list \<Rightarrow> ustr list" where
  "split_pieces s i [] = [drop i s]"
| "split_pieces s i (m # ms) = take (fst m - i) (drop i s) # split_pieces s (fst (snd m)) ms"

definition re_split :: "ucd \<Rightarrow> re_flags \<Rightarrow> rx \<Rightarrow> ustr \<Rightarrow> ustr list" where
  "re_split U F x s = split_pieces s 0 (finditer U F x s)"

fun sub_pieces :: "ustr \<Rightarrow> (rmatch \<Rightarrow> ustr) \<Rightarrow> nat \<Rightarrow> rmatch list \<Rightarrow> ustr" where
  "sub_pieces s repl i [] = drop i s"
| "sub_pieces s repl i (m # ms) =
     take (fst m - i) (drop i s) @ repl m @ sub_pieces s repl (fst (snd m)) ms"

definition re_sub :: "ucd \<Rightarrow> re_flags \<Rightarrow> rx \<Rightarrow> (rmatch \<Rightarrow> ustr) \<Rightarrow> ustr \<Rightarrow> ustr" where
  "re_sub U F x repl s = sub_pieces s repl 0 (finditer U F x s)"

text \<open>Pattern notation: a word and an alternative of several patterns.\<close>

fun word :: "ustr \<Rightarrow> rx" where
  "word [] = Eps"
| "word [a] = Lit a"
| "word (a # b # bs) = Seq (Lit a) (word (b # bs))"

fun seqs :: "rx list \<Rightarrow> rx" where
  "seqs [] = Eps"
| "seqs [x] = x"
| "seqs (x # y # ys) = Seq x (seqs (y # ys))"

fun alts :: "rx list \<Rightarrow> rx" where
  "alts [] = Eps"
| "alts [x] = x"
| "alts (x # y # ys) = Alt x (alts (y # ys))"

abbreviation star :: "rx \<Rightarrow> rx" where "star x \<equiv> Rep x 0 None"
abbreviation plus :: "rx \<Rightarrow> rx" where "plus x \<equiv> Rep x 1 None"
abbreviation opt :: "rx \<Rightarrow> rx" where "opt x \<equiv> Rep x 0 (Some 1)"
abbreviation ws :: rx where "ws \<equiv> Cls [CSpace]"
abbreviation digit :: rx where "digit \<equiv> Cls [CDigit]"

section \<open>Segmenter (segmenter.py)\<close>

record SegmentConfig =
  target_len :: int
  max_len :: int
  min_len :: int
  overlap :: int
  prefer_headings :: bool
  min_par_len :: int
  min_sent_len :: int

definition default_SegmentConfig :: SegmentConfig where
  "default_SegmentConfig =
     \<lparr>target_len = 900, max_len = 1200, min_len = 250, overlap = 120,
      prefer_headings = True, min_par_len = 20, min_sent_len = 20\<rparr>"

subsection \<open>The patterns\<close>

text \<open>
  The Russian words are written by their code points: GOST 1043 1054 1057 1058,
  SNiP 1057 1053 1080 1055, SP 1057 1055, PUE 1055 1059 1069, STO 1057 1058 1054,
  Razdel 1056 1072 1079 1076 1077 1083, Glava 1043 1083 1072 1074 1072,
  Chast 1063 1072 1089 1090 1100, Punkt 1055 1091 1085 1082 1090, P 1055.
  The capital letters run from 1040 to 1071, with Yo at 1025.
\<close>

definition kw_standard :: rx where
  "kw_standard =
     alts [word [1043, 1054, 1057, 1058], word [1057, 1053, 1080, 1055], word [1057, 1055],
           word [1055, 1059, 1069], word [1057, 1058, 1054]]"

text \<open>\<^verbatim>\<open>\d+(?:\.\d+){0,k}\<close> and \<^verbatim>\<open>[0-9]+(?:\.[0-9]+){0,k}\<close>\<close>

definition dotted_number :: "rx \<Rightarrow> nat option \<Rightarrow> rx" where
  "dotted_number d k = Seq (plus d) (Rep (Seq (Lit 46) (plus d)) 0 k)"

definition HEAD_RE :: rx where
  "HEAD_RE =
     seqs [Bol, star ws,
       alts [
         seqs [kw_standard, plus ws,
               plus (Cls [CWord, CChar 45, CChar 46, CChar 58, CChar 47])],
         seqs [word [1056, 1072, 1079, 1076, 1077, 1083], plus ws, plus digit],
         seqs [word [1043, 1083, 1072, 1074, 1072], plus ws, plus digit],
         seqs [word [1063, 1072, 1089, 1090, 1100], plus ws,
               Alt (plus digit)
                   (plus (Cls [CChar 73, CChar 86, CChar 88, CChar 76, CChar 67, CChar 68,
                               CChar 77]))],
         seqs [word [1055, 1091, 1085, 1082, 1090], plus ws, dotted_number digit (Some 4)],
         seqs [word [1055, 46], star ws, dotted_number digit (Some 4)],
         seqs [dotted_number (Cls [CRange 48 57]) (Some 2), plus ws,
               Cls [CRange 1040 1071, CRange 65 90, CChar 1025], Rep Dot 2 None]],
       star ws, Eol]"

definition UPPER_HEADING_RE :: rx where
  "UPPER_HEADING_RE =
     seqs [Bol,
       Rep (Cls [CRange 65 90, CRange 1040 1071, CChar 1025, CRange 48 57, CChar 32,
                 CChar 45, CChar 44, CChar 58, CChar 40, CChar 41]) 8 (Some 80),
       Eol]"

definition PARA_SPLIT_RE :: rx where
  "PARA_SPLIT_RE = Rep (Lit 10) 2 None"

definition SENT_SPLIT_RE :: rx where
  "SENT_SPLIT_RE =
     Seq (Behind [CChar 46, CChar 63, CChar 33, CChar 58, CChar 59, CChar 8230]) (plus ws)"

subsection \<open>Low-level helpers\<close>

definition split_paragraphs :: "ucd \<Rightarrow> ustr \<Rightarrow> ustr list" where
  "split_paragraphs U text =
     filter (\<lambda>p. p \<noteq> []) (map strip (re_split U no_flags PARA_SPLIT_RE text))"

definition is_heading :: "ucd \<Rightarrow> ustr \<Rightarrow> bool" where
  "is_heading U line =
     (let s = strip line
      in if re_match U flags_I HEAD_RE s \<noteq> None then True
         else if 8 \<le> length s \<and> length s \<le> 80 \<and> s = u_upper_str U s
                 \<and> re_match U no_flags UPPER_HEADING_RE s \<noteq> None then True
         else False)"

definition split_sentences :: "ucd \<Rightarrow> ustr \<Rightarrow> ustr list" where
  "split_sentences U par =
     filter (\<lambda>p. p \<noteq> []) (map strip (re_split U no_flags SENT_SPLIT_RE par))"

subsection \<open>\_soft\_cut\<close>

text \<open>
  The loop over the sentences. \<^verbatim>\<open>pos\<close> is set to 0 before the loop and never
  changed, so \<^verbatim>\<open>end = pos + len(s)\<close> is the length of the sentence. A sentence
  shorter than \<^verbatim>\<open>min_len\<close> is skipped; for any other the next statement,
  \<^verbatim>\<open>dist = abs(ens - target)\<close>, reads the name \<^verbatim>\<open>ens\<close>, which neither the
  function nor the module defines, and raises NameError. The statements after it in
  the loop body (the update of \<^verbatim>\<open>best\<close>) are never reached, and the loop state
  \<open>(best, best_dist)\<close> leaves the loop as it entered.
\<close>

fun soft_cut_sentences ::
  "SegmentConfig \<Rightarrow> int \<Rightarrow> ustr list \<Rightarrow> int \<times> int \<Rightarrow> error + (int \<times> int)" where
  "soft_cut_sentences cfg target [] st = Inr st"
| "soft_cut_sentences cfg target (s # sents) st =
     (let pos = 0; end = pos + int (length s)
      in if end < min_len cfg then soft_cut_sentences cfg target sents st
         else Inl (NameError ''ens''))"

text \<open>
  After the loop: \<^verbatim>\<open>left\<close> and \<^verbatim>\<open>right\<close> are computed, \<^verbatim>\<open>left\<close> may be
  appended to \<^verbatim>\<open>cand\<close>, and then the test \<^verbatim>\<open>if rigth != -1\<close> reads the undefined
  name \<^verbatim>\<open>rigth\<close>.
\<close>

definition soft_cut :: "ucd \<Rightarrow> ustr \<Rightarrow> SegmentConfig \<Rightarrow> error + int" where
  "soft_cut U buffer cfg =
     (let n = int (length buffer)
      in if n \<le> max_len cfg then Inr (- 1)
         else
           let target0 = target_len cfg;
               target1 = (if target0 < min_len cfg then (min_len cfg + max_len cfg) div 2
                          else target0);
               target = max (min_len cfg) (min target1 (max_len cfg));
               sents = split_sentences U buffer
           in case soft_cut_sentences cfg target sents (- 1, 10 ^ 9) of
                Inl e \<Rightarrow> Inl e
              | Inr (best, best_dist) \<Rightarrow>
                  if best \<noteq> - 1 then Inr best
                  else
                    let left = py_rfind buffer [32] (min_len cfg) (Some (min n (max_len cfg)));
                        right = py_find buffer [32] (min target (n - 1))
                                  (Some (min n (max_len cfg)));
                        cand = (if left \<noteq> - 1 then [(\<bar>left - target\<bar>, left)] else [])
                    in Inl (NameError ''rigth''))"

subsection \<open>chunk\_text\_with\_spans\<close>

text \<open>
  The first loop, \<^verbatim>\<open>for par in paragraphs: is_head = _is_heading(p); ...\<close>. The name
  \<^verbatim>\<open>p\<close> is a local variable of the function (the second loop assigns it), and
  nothing has assigned it yet: \<open>None\<close> is the unbound variable, and reading it raises
  UnboundLocalError.
\<close>

fun build_items ::
  "ucd \<Rightarrow> ustr option \<Rightarrow> ustr list \<Rightarrow> (ustr \<times> bool) list \<Rightarrow> error + (ustr \<times> bool) list" where
  "build_items U p [] items = Inr items"
| "build_items U p (par # rest) items =
     (case p of
        None \<Rightarrow> Inl (UnboundLocalError ''p'')
      | Some v \<Rightarrow> build_items U p rest (items @ [(v, is_heading U v)]))"

text \<open>
  The local variables \<^verbatim>\<open>chunks\<close>, \<^verbatim>\<open>spans\<close>, \<^verbatim>\<open>buf\<close>, \<^verbatim>\<open>buf_start\<close> and
  \<^verbatim>\<open>cursor\<close> that the second loop updates.
\<close>

record seg_state =
  s_chunks :: "ustr list"
  s_spans :: "(int \<times> int) list"
  s_buf :: ustr
  s_buf_start :: int
  s_cursor :: int

definition seg_init :: seg_state where
  "seg_init = \<lparr>s_chunks = [], s_spans = [], s_buf = [], s_buf_start = 0, s_cursor = 0\<rparr>"

text \<open>
  The test \<^verbatim>\<open>is_head and buf and len(buf) >= cfg.min_len and cfg.prefet_headings\<close>
  is evaluated from the left and stops at the first false operand. When the first
  three hold, the fourth reads an attribute that \<^verbatim>\<open>SegmentConfig\<close> does not have (its
  field is \<^verbatim>\<open>prefer_headings\<close>) and raises AttributeError, so the block under the test
  is never entered.
\<close>

definition close_on_heading :: "SegmentConfig \<Rightarrow> bool \<Rightarrow> seg_state \<Rightarrow> error + seg_state" where
  "close_on_heading cfg is_head st =
     (if is_head \<and> s_buf st \<noteq> [] \<and> int (length (s_buf st)) \<ge> min_len cfg
      then Inl (AttributeError ''prefet_headings'')
      else Inr st)"

text \<open>
  \<^verbatim>\<open>if not buf: ... else: ...\<close>. In the overflow branch with \<^verbatim>\<open>cut_at == -1\<close> the
  buffer is emitted and re-seeded, and then \<^verbatim>\<open>chunks.append(chunk)\<close> reads the local
  variable \<^verbatim>\<open>chunk\<close>, whose only assignment is in the block that is never entered:
  UnboundLocalError. With another \<^verbatim>\<open>cut_at\<close> nothing is done (the \<^verbatim>\<open>if\<close> has no
  \<^verbatim>\<open>else\<close>). The cursor is advanced at the end of the outer \<^verbatim>\<open>else\<close> only.
\<close>

definition append_paragraph ::
  "ucd \<Rightarrow> SegmentConfig \<Rightarrow> ustr \<Rightarrow> int \<Rightarrow> seg_state \<Rightarrow> error + seg_state" where
  "append_paragraph U cfg p idx st =
     (if s_buf st = [] then Inr (st\<lparr>s_buf := p, s_buf_start := idx\<rparr>)
      else
        let candidate = strip (s_buf st @ [10, 10] @ p)
        in if int (length candidate) \<le> max_len cfg
           then Inr (st\<lparr>s_buf := candidate, s_cursor := idx + int (length p)\<rparr>)
           else
             (case soft_cut U (s_buf st) cfg of
                Inl e \<Rightarrow> Inl e
              | Inr cut_at \<Rightarrow>
                  if cut_at = - 1 then
                    let chunks1 = s_chunks st @ [strip (s_buf st)];
                        spans1 = s_spans st @ [(s_buf_start st, s_buf_start st + int (length (s_buf st)))];
                        overlap_text =
                          strip (py_slice (s_buf st)
                                   (Some (max 0 (int (length (s_buf st)) - overlap cfg))) None);
                        buf1 = strip (overlap_text @ [10, 10] @ p)
                    in Inl (UnboundLocalError ''chunk'')
                  else Inr (st\<lparr>s_cursor := idx + int (length p)\<rparr>)))"

text \<open>
  The block \<^verbatim>\<open>if buf: ...\<close> and the \<^verbatim>\<open>return chunks, spans\<close> after it. Both are
  indented under the \<^verbatim>\<open>for\<close>: they are the end of the loop body.
\<close>

definition flush_and_return ::
  "ustr \<Rightarrow> SegmentConfig \<Rightarrow> seg_state \<Rightarrow> error + (ustr list \<times> (int \<times> int) list)" where
  "flush_and_return text cfg st =
     (let b = s_buf st; n = int (length text);
          own = (s_chunks st @ [strip b], s_spans st @ [(n - int (length b), n)])
      in if b \<noteq> [] then
           if int (length b) < min_len cfg \<and> s_chunks st \<noteq> [] then
             let prev = last (s_chunks st); merged = strip (prev @ [10, 10] @ b)
             in if int (length merged) \<le> max_len cfg then
                  (case rev (s_spans st) of
                     [] \<Rightarrow> Inl (IndexError ''list index out of range'')
                   | (prev_start, prev_end) # _ \<Rightarrow>
                       Inr (butlast (s_chunks st) @ [merged],
                            butlast (s_spans st) @ [(prev_start, prev_start + int (length merged))]))
                else Inr own
           else Inr own
         else Inr (s_chunks st, s_spans st))"

text \<open>One pass through the body of \<^verbatim>\<open>for p, is_head in items\<close>; it ends in the return.\<close>

definition loop_body ::
  "ucd \<Rightarrow> ustr \<Rightarrow> SegmentConfig \<Rightarrow> ustr \<times> bool \<Rightarrow> seg_state
     \<Rightarrow> error + (ustr list \<times> (int \<times> int) list)" where
  "loop_body U text cfg item st =
     (let p = fst item; is_head = snd item;
          found = py_find text p (s_cursor st) None;
          idx = (if found = - 1 then s_cursor st else found)
      in case close_on_heading cfg is_head st of
           Inl e \<Rightarrow> Inl e
         | Inr st1 \<Rightarrow>
             (case append_paragraph U cfg p idx st1 of
                Inl e \<Rightarrow> Inl e
              | Inr st2 \<Rightarrow> flush_and_return text cfg st2))"

text \<open>
  The function. With no item the loop body is never run and the function ends without
  a \<^verbatim>\<open>return\<close>: the result is Python's \<^verbatim>\<open>None\<close>, here \<open>Inr None\<close>.
\<close>

definition chunk_text_with_spans ::
  "ucd \<Rightarrow> ustr \<Rightarrow> SegmentConfig \<Rightarrow> error + (ustr list \<times> (int \<times> int) list) option" where
  "chunk_text_with_spans U text cfg =
     (let paragraphs = split_paragraphs U text
      in case build_items U None paragraphs [] of
           Inl e \<Rightarrow> Inl e
         | Inr items \<Rightarrow>
             (case items of
                [] \<Rightarrow> Inr None
              | item # _ \<Rightarrow>
                  (case loop_body U text cfg item seg_init of
                     Inl e \<Rightarrow> Inl e
                   | Inr r \<Rightarrow> Inr (Some r))))"

text \<open>\<^verbatim>\<open>chunks, _ = chunk_text_with_spans(text, cfg)\<close>: unpacking \<^verbatim>\<open>None\<close> raises TypeError.\<close>

definition chunk_text :: "ucd \<Rightarrow> ustr \<Rightarrow> SegmentConfig \<Rightarrow> error + ustr list" where
  "chunk_text U text cfg =
     (case chunk_text_with_spans U text cfg of
        Inl e \<Rightarrow> Inl e
      | Inr None \<Rightarrow> Inl (TypeError ''cannot unpack non-iterable NoneType object'')
      | Inr (Some (cs, sps)) \<Rightarrow> Inr cs)"

subsection \<open>What the specification says of these functions\<close>

text \<open>
  The coverage property of the specification, for a returned pair of chunks and spans:
  the first chunk followed by the other chunks without their first \<open>overlap\<close>
  characters is the text, every span is as long as its chunk, and the starts of the
  spans do not decrease.
\<close>

fun collapse_overlaps :: "nat \<Rightarrow> ustr list \<Rightarrow> ustr" where
  "collapse_overlaps ov [] = []"
| "collapse_overlaps ov (c # cs) = c @ concat (map (drop ov) cs)"

definition covers ::
  "ustr \<Rightarrow> SegmentConfig \<Rightarrow> ustr list \<times> (int \<times> int) list \<Rightarrow> bool" where
  "covers text cfg r =
     (collapse_overlaps (nat (overlap cfg)) (fst r) = text
      \<and> map (\<lambda>sp. snd sp - fst sp) (snd r) = map (\<lambda>c. int (length c)) (fst r)
      \<and> sorted (map fst (snd r)))"

section \<open>Page Mapper (segmenter.py, approximate\_pages)\<close>

text \<open>
  A page descriptor is a Python dict; the loader writes the integer entries
  \<^verbatim>\<open>page\<close> and \<^verbatim>\<open>chars\<close>. This first model is of the function on such
  descriptors, a dict being a map to integers: \<^verbatim>\<open>p.get(k, d)\<close> reads a key with a
  default, and \<^verbatim>\<open>int(v)\<close> is the identity on an integer. Dicts that hold other
  values, on which \<^verbatim>\<open>int(v)\<close> raises, are modelled further down
  (\<open>approximate_pages_untyped\<close>).
\<close>

type_synonym page_descriptor = "string \<rightharpoonup> int"

definition dict_get :: "page_descriptor \<Rightarrow> string \<Rightarrow> int \<Rightarrow> int" where
  "dict_get p k d = (case p k of None \<Rightarrow> d | Some v \<Rightarrow> v)"

text \<open>
  \<^verbatim>\<open>int(p.get("page", 0)) or (len(cutoffs) + 1)\<close>: a missing or zero page
  number is replaced by the page's position (1-based).
\<close>

definition page_number :: "page_descriptor \<Rightarrow> nat \<Rightarrow> int" where
  "page_number p n_cutoffs =
     (let v = dict_get p ''page'' 0 in if v \<noteq> 0 then v else int n_cutoffs + 1)"

text \<open>
  The loop over \<^verbatim>\<open>pages_meta\<close>, with its state \<^verbatim>\<open>s\<close> and \<^verbatim>\<open>cutoffs\<close>
  passed along.
\<close>

fun build_cutoffs ::
  "page_descriptor list \<Rightarrow> int \<Rightarrow> (int \<times> int \<times> int) list \<Rightarrow> (int \<times> int \<times> int) list" where
  "build_cutoffs [] s cutoffs = cutoffs"
| "build_cutoffs (p # ps) s cutoffs =
     (let s2 = s + dict_get p ''chars'' 0
      in build_cutoffs ps s2 (cutoffs @ [(s, s2, page_number p (length cutoffs))]))"

text \<open>\<^verbatim>\<open>[pg for (a, b, pg) in cutoffs if not (b <= start or a >= end)]\<close>\<close>

definition pages_hit :: "(int \<times> int \<times> int) list \<Rightarrow> int \<Rightarrow> int \<Rightarrow> int list" where
  "pages_hit cutoffs start end =
     map (\<lambda>(a, b, pg). pg) (filter (\<lambda>(a, b, pg). \<not> (b \<le> start \<or> a \<ge> end)) cutoffs)"

text \<open>
  Python's \<^verbatim>\<open>min\<close> and \<^verbatim>\<open>max\<close> of a list, left to right; both raise
  ValueError on an empty sequence.
\<close>

fun py_min :: "int list \<Rightarrow> error + int" where
  "py_min [] = Inl (ValueError ''min() arg is an empty sequence'')"
| "py_min (x # xs) = Inr (fold min xs x)"

fun py_max :: "int list \<Rightarrow> error + int" where
  "py_max [] = Inl (ValueError ''max() arg is an empty sequence'')"
| "py_max (x # xs) = Inr (fold max xs x)"

text \<open>A loop that appends one result per element and stops at the first exception.\<close>

fun map_err :: "('a \<Rightarrow> error + 'b) \<Rightarrow> 'a list \<Rightarrow> error + 'b list" where
  "map_err f [] = Inr []"
| "map_err f (x # xs) =
     (case f x of
        Inl e \<Rightarrow> Inl e
      | Inr y \<Rightarrow> (case map_err f xs of Inl e \<Rightarrow> Inl e | Inr ys \<Rightarrow> Inr (y # ys)))"

text \<open>The body of the loop over \<^verbatim>\<open>spans\<close>.\<close>

definition page_range ::
  "(int \<times> int \<times> int) list \<Rightarrow> int \<times> int \<Rightarrow> error + (int option \<times> int option)" where
  "page_range cutoffs sp =
     (let hits = pages_hit cutoffs (fst sp) (snd sp)
      in if hits \<noteq> [] then
           (case py_min hits of
              Inl e \<Rightarrow> Inl e
            | Inr lo \<Rightarrow> (case py_max hits of Inl e \<Rightarrow> Inl e | Inr hi \<Rightarrow> Inr (Some lo, Some hi)))
         else Inr (None, None))"

definition approximate_pages ::
  "page_descriptor list \<Rightarrow> (int \<times> int) list \<Rightarrow> error + (int option \<times> int option) list" where
  "approximate_pages pages_meta spans =
     (if pages_meta = [] then Inr (map (\<lambda>_. (None, None)) spans)
      else map_err (page_range (build_cutoffs pages_meta 0 [])) spans)"

subsection \<open>The page ranges as the specification words them\<close>

text \<open>
  Page \<open>i\<close> (0-based position) covers the characters from the sum of the
  \<^verbatim>\<open>chars\<close> of the pages before it to that sum plus its own \<^verbatim>\<open>chars\<close>.
\<close>

definition page_start :: "page_descriptor list \<Rightarrow> nat \<Rightarrow> int" where
  "page_start pm i = (\<Sum>p \<leftarrow> take i pm. dict_get p ''chars'' 0)"

definition page_end :: "page_descriptor list \<Rightarrow> nat \<Rightarrow> int" where
  "page_end pm i = (\<Sum>p \<leftarrow> take (Suc i) pm. dict_get p ''chars'' 0)"

definition overlapping_pages :: "page_descriptor list \<Rightarrow> int \<times> int \<Rightarrow> int set" where
  "overlapping_pages pm sp =
     {pg. \<exists>i. i < length pm \<and> pg = page_number (pm ! i) i
            \<and> \<not> (page_end pm i \<le> fst sp \<or> page_start pm i \<ge> snd sp)}"

definition page_range_spec :: "page_descriptor list \<Rightarrow> int \<times> int \<Rightarrow> int option \<times> int option" where
  "page_range_spec pm sp =
     (if overlapping_pages pm sp = {} then (None, None)
      else (Some (Min (overlapping_pages pm sp)), Some (Max (overlapping_pages pm sp))))"

definition scenario5_pages :: "page_descriptor list" where
  "scenario5_pages = [[''page'' \<mapsto> 1, ''chars'' \<mapsto> 100], [''page'' \<mapsto> 2, ''chars'' \<mapsto> 50]]"


subsection \<open>Descriptors with values of any type\<close>

text \<open>
  Nothing in \<open>approximate_pages\<close> checks what a descriptor holds: the value
  under a key is whatever the caller put there, and \<^verbatim>\<open>int(...)\<close> converts it. A value
  is modelled as an integer, as \<^verbatim>\<open>None\<close>, or as an object of another type that
  \<^verbatim>\<open>int\<close> does not accept (a list, a dict, ...), given by the name of its
  type. On an integer \<^verbatim>\<open>int\<close> is the identity; on the other two it raises
  TypeError. Strings and floats, which \<^verbatim>\<open>int\<close> parses or truncates, are left
  out of the model.
\<close>

datatype pyvalue = PyInt int | PyNone | PyObject string

type_synonym untyped_descriptor = "string \<rightharpoonup> pyvalue"

fun py_int :: "pyvalue \<Rightarrow> error + int" where
  "py_int (PyInt v) = Inr v"
| "py_int PyNone =
     Inl (TypeError
       ''int() argument must be a string, a bytes-like object or a real number, not NoneType'')"
| "py_int (PyObject ty) =
     Inl (TypeError
       (''int() argument must be a string, a bytes-like object or a real number, not '' @ ty))"

text \<open>\<^verbatim>\<open>p.get(k, d)\<close>\<close>

definition py_get :: "untyped_descriptor \<Rightarrow> string \<Rightarrow> pyvalue \<Rightarrow> pyvalue" where
  "py_get p k d = (case p k of None \<Rightarrow> d | Some v \<Rightarrow> v)"

text \<open>
  The loop over \<^verbatim>\<open>pages_meta\<close>. In one round \<^verbatim>\<open>int(p.get("chars", 0))\<close> is
  evaluated first, then \<^verbatim>\<open>int(p.get("page", 0))\<close>; the first exception ends the
  function.
\<close>

fun build_cutoffs_untyped ::
  "untyped_descriptor list \<Rightarrow> int \<Rightarrow> (int \<times> int \<times> int) list
     \<Rightarrow> error + (int \<times> int \<times> int) list" where
  "build_cutoffs_untyped [] s cutoffs = Inr cutoffs"
| "build_cutoffs_untyped (p # ps) s cutoffs =
     (case py_int (py_get p ''chars'' (PyInt 0)) of
        Inl e \<Rightarrow> Inl e
      | Inr c \<Rightarrow>
          (let s2 = s + c
           in case py_int (py_get p ''page'' (PyInt 0)) of
                Inl e \<Rightarrow> Inl e
              | Inr v \<Rightarrow>
                  build_cutoffs_untyped ps s2
                    (cutoffs @ [(s, s2, if v \<noteq> 0 then v else int (length cutoffs) + 1)])))"

definition approximate_pages_untyped ::
  "untyped_descriptor list \<Rightarrow> (int \<times> int) list \<Rightarrow> error + (int option \<times> int option) list" where
  "approximate_pages_untyped pages_meta spans =
     (if pages_meta = [] then Inr (map (\<lambda>_. (None, None)) spans)
      else (case build_cutoffs_untyped pages_meta 0 [] of
              Inl e \<Rightarrow> Inl e
            | Inr cutoffs \<Rightarrow> map_err (page_range cutoffs) spans))"

text \<open>A descriptor with integer entries, seen as a dict of values.\<close>

definition as_untyped :: "page_descriptor \<Rightarrow> untyped_descriptor" where
  "as_untyped p = (\<lambda>k. map_option PyInt (p k))"

subsection \<open>The result for descriptors that may lack a key, in words\<close>











section \<open>Anchor Extractor (structure\_parser.py)\<close>

subsection \<open>The patterns\<close>

text \<open>
  Prilozhenie 1055 1088 1080 1083 1086 1078 1077 1085 1080 1077,
  Podpunkt 1055 1086 1076 1087 1091 1085 1082 1090, Tablitsa 1058 1072 1073 1083 1080
  1094 1072, Risunok 1056 1080 1089 1091 1085 1086 1082. In two classes the source
  writes a range from the Latin capital A (65) to the Cyrillic capital Ya (1071).
\<close>

text \<open>\<^verbatim>\<open>\s*[.)]?\s*(?P<title>.*)$\<close>, the tail shared by three patterns.\<close>

definition title_tail :: rx where
  "title_tail = seqs [star ws, opt (Cls [CChar 46, CChar 41]), star ws, Grp ''title'' (star Dot), Eol]"

definition RE_SECTION :: rx where
  "RE_SECTION =
     seqs [Bol, star ws,
       Grp ''kind'' (alts [word [1056, 1072, 1079, 1076, 1077, 1083],
                           word [1043, 1083, 1072, 1074, 1072],
                           word [1063, 1072, 1089, 1090, 1100]]),
       plus ws,
       Grp ''id'' (Alt (plus (Cls [CChar 73, CChar 86, CChar 88, CChar 76, CChar 67, CChar 68,
                                   CChar 77]))
                       (plus digit)),
       title_tail]"

definition RE_APPENDIX :: rx where
  "RE_APPENDIX =
     seqs [Bol, star ws,
       Grp ''kind'' (word [1055, 1088, 1080, 1083, 1086, 1078, 1077, 1085, 1080, 1077]),
       star ws,
       opt (Grp ''id'' (plus (Cls [CRange 65 1071, CRange 65 90, CDigit]))),
       title_tail]"

definition RE_CLAUSE :: rx where
  "RE_CLAUSE =
     seqs [Bol, star ws,
       Grp ''kind'' (alts [word [1055, 1091, 1085, 1082, 1090],
                           word [1055, 1086, 1076, 1087, 1091, 1085, 1082, 1090],
                           word [1055, 46], word [1087, 46]]),
       plus ws,
       Grp ''id'' (dotted_number digit (Some 4)),
       title_tail]"

definition RE_NUM_TITLE :: rx where
  "RE_NUM_TITLE =
     seqs [Bol, star ws,
       Grp ''id'' (dotted_number digit (Some 2)),
       plus ws,
       Grp ''title'' (Seq (Cls [CRange 65 1071, CRange 65 90, CChar 1025]) (Rep Dot 2 None)),
       Eol]"

definition RE_TABLE :: rx where
  "RE_TABLE =
     seqs [Bol, star ws,
       Grp ''kind'' (word [1058, 1072, 1073, 1083, 1080, 1094, 1072]),
       plus ws,
       Grp ''id'' (dotted_number digit None),
       star ws, Grp ''title'' (star Dot), Eol]"

definition RE_FIG :: rx where
  "RE_FIG =
     seqs [Bol, star ws,
       Grp ''kind'' (word [1056, 1080, 1089, 1091, 1085, 1086, 1082]),
       plus ws,
       Grp ''id'' (dotted_number digit None),
       star ws, Grp ''title'' (star Dot), Eol]"

subsection \<open>Anchors\<close>

text \<open>
  The dataclass \<^verbatim>\<open>Anchor\<close>; the fields carry the prefix \<open>a_\<close> (\<open>id\<close> and \<open>end\<close>
  are taken in HOL). \<^verbatim>\<open>kind\<close> is a string in the source.
\<close>

record Anchor =
  a_kind :: string
  a_id :: ustr
  a_title :: ustr
  a_start :: int
  a_end :: int
  a_level :: int
  a_raw_kind :: "ustr option"

text \<open>
  \<^verbatim>\<open>_mk_anchor\<close>. For the kinds \<^verbatim>\<open>clause\<close> and \<^verbatim>\<open>numtitle\<close> the level is
  \<^verbatim>\<open>min(1 + _dot_depth(id), 6)\<close>; the module defines \<^verbatim>\<open>_bot_depth\<close> and no
  \<^verbatim>\<open>_dot_depth\<close>, so the call raises NameError.
\<close>

definition mk_anchor :: "string \<Rightarrow> ustr \<Rightarrow> ustr \<Rightarrow> ustr option \<Rightarrow> int \<Rightarrow> error + Anchor" where
  "mk_anchor kind raw_kind idv title start =
     (case (if kind = ''section'' \<or> kind = ''appendix'' then Inr 1
            else if kind = ''clause'' \<or> kind = ''numtitle'' then Inl (NameError ''_dot_depth'')
            else if kind = ''table'' \<or> kind = ''figure'' then Inr 99
            else Inr 5) of
        Inl e \<Rightarrow> Inl e
      | Inr level \<Rightarrow>
          Inr \<lparr>a_kind = kind, a_id = strip idv,
               a_title = strip (case title of None \<Rightarrow> [] | Some t \<Rightarrow> t),
               a_start = start, a_end = 1, a_level = level, a_raw_kind = Some raw_kind\<rparr>)"

text \<open>
  \<^verbatim>\<open>m.group(g)\<close> for a group that takes part in every match of its pattern, and
  \<^verbatim>\<open>m.group("id") or ""\<close> for the optional group of \<open>RE_APPENDIX\<close>.
\<close>

definition group_text :: "ustr \<Rightarrow> rmatch \<Rightarrow> string \<Rightarrow> ustr" where
  "group_text s m g = (case group s m g of None \<Rightarrow> [] | Some v \<Rightarrow> v)"

text \<open>One loop \<^verbatim>\<open>for m in RE.finditer(text): anchors.append(_mk_anchor(...))\<close>.\<close>

definition anchors_for :: "ucd \<Rightarrow> ustr \<Rightarrow> string \<Rightarrow> re_flags \<Rightarrow> rx \<Rightarrow> error + Anchor list" where
  "anchors_for U text kind F pat =
     map_err (\<lambda>m. mk_anchor kind (group_text text m ''kind'') (group_text text m ''id'')
                     (group text m ''title'') (int (fst m)))
       (finditer U F pat text)"

text \<open>
  The loop over \<open>RE_NUM_TITLE\<close> evaluates \<^verbatim>\<open>m.group("kind")\<close> as an argument; the
  pattern has no group of that name, and \<^verbatim>\<open>group\<close> raises IndexError.
\<close>

definition numtitle_anchors :: "ucd \<Rightarrow> ustr \<Rightarrow> error + Anchor list" where
  "numtitle_anchors U text =
     map_err (\<lambda>m. Inl (IndexError ''no such group'')) (finditer U flags_M RE_NUM_TITLE text)"

text \<open>\<^verbatim>\<open>a.end = anchors[i + 1].start if i + 1 < n else len(text)\<close>, for every \<open>i\<close>.\<close>

fun set_ends :: "int \<Rightarrow> Anchor list \<Rightarrow> Anchor list" where
  "set_ends n [] = []"
| "set_ends n [a] = [a\<lparr>a_end := n\<rparr>]"
| "set_ends n (a # b # rest) = a\<lparr>a_end := a_start b\<rparr> # set_ends n (b # rest)"

text \<open>\<^verbatim>\<open>priority.get(kind, 5)\<close>\<close>

definition priority :: "string \<Rightarrow> int" where
  "priority k =
     (if k = ''section'' then 1 else if k = ''appendix'' then 1 else if k = ''clause'' then 2
      else if k = ''numtitle'' then 3 else if k = ''table'' then 9 else if k = ''figure'' then 9
      else 5)"

fun dedup_loop :: "Anchor list \<Rightarrow> Anchor list \<Rightarrow> Anchor list" where
  "dedup_loop [] dedup = dedup"
| "dedup_loop (a # rest) dedup =
     (if dedup \<noteq> [] \<and> \<bar>a_start a - a_start (last dedup)\<bar> < 2 \<and> a_id a = a_id (last dedup)
      then (if priority (a_kind a) < priority (a_kind (last dedup))
            then dedup_loop rest (butlast dedup @ [a])
            else dedup_loop rest dedup)
      else dedup_loop rest (dedup @ [a]))"

text \<open>Sorting by start (stable), the ends, the deduplication, and the ends again.\<close>

definition finish_anchors :: "ustr \<Rightarrow> Anchor list \<Rightarrow> Anchor list" where
  "finish_anchors text anchors =
     set_ends (int (length text))
       (dedup_loop (set_ends (int (length text)) (sort_key a_start anchors)) [])"

definition find_anchors :: "ucd \<Rightarrow> ustr \<Rightarrow> error + Anchor list" where
  "find_anchors U text =
     (case anchors_for U text ''section'' flags_IM RE_SECTION of Inl e \<Rightarrow> Inl e | Inr a1 \<Rightarrow>
      case anchors_for U text ''appendix'' flags_IM RE_APPENDIX of Inl e \<Rightarrow> Inl e | Inr a2 \<Rightarrow>
      case anchors_for U text ''clause'' flags_IM RE_CLAUSE of Inl e \<Rightarrow> Inl e | Inr a3 \<Rightarrow>
      case numtitle_anchors U text of Inl e \<Rightarrow> Inl e | Inr a4 \<Rightarrow>
      case anchors_for U text ''table'' flags_IM RE_TABLE of Inl e \<Rightarrow> Inl e | Inr a5 \<Rightarrow>
      case anchors_for U text ''figure'' flags_IM RE_FIG of Inl e \<Rightarrow> Inl e | Inr a6 \<Rightarrow>
        Inr (finish_anchors text (a1 @ a2 @ a3 @ a4 @ a5 @ a6)))"

subsection \<open>The best anchor for a position\<close>

text \<open>
  The position an anchor is looked up for is a Python value: an integer, or, as
  \<^verbatim>\<open>annotate_chunks_with_sections\<close> passes it, the function object
  \<^verbatim>\<open>current_process\<close> imported from \<^verbatim>\<open>multiprocessing\<close>. Comparing an integer with a
  function raises TypeError.
\<close>

datatype pyval = PInt int | PFunction string

text \<open>The first loop: the last anchor before the first one that starts after \<open>pos\<close>.\<close>

fun candidate_loop :: "Anchor list \<Rightarrow> int \<Rightarrow> Anchor option \<Rightarrow> Anchor option" where
  "candidate_loop [] pos candidate = candidate"
| "candidate_loop (a # rest) pos candidate =
     (if a_start a \<le> pos then candidate_loop rest pos (Some a) else candidate)"

text \<open>
  The second loop, over the reversed list. Its innermost test reads \<^verbatim>\<open>bext.level\<close>,
  an undefined name, so the loop raises NameError at the first anchor that reaches the
  test, and \<^verbatim>\<open>best\<close> is never replaced.
\<close>

fun refine_loop :: "Anchor list \<Rightarrow> int \<Rightarrow> Anchor \<Rightarrow> error + Anchor" where
  "refine_loop [] pos best = Inr best"
| "refine_loop (a # rest) pos best =
     (if a_start a > pos then refine_loop rest pos best
      else if a_kind a = ''table'' \<or> a_kind a = ''figure'' then refine_loop rest pos best
      else if a_start a \<le> pos \<and> a_start a \<ge> a_start best then Inl (NameError ''bext'')
      else refine_loop rest pos best)"

definition best_anchor_for_pos :: "Anchor list \<Rightarrow> pyval \<Rightarrow> error + Anchor option" where
  "best_anchor_for_pos anchors pos =
     (if anchors = [] then Inr None
      else case pos of
        PFunction f \<Rightarrow> Inl (TypeError ''<= not supported between int and function'')
      | PInt p \<Rightarrow>
          (case candidate_loop anchors p None of
             None \<Rightarrow> Inr None
           | Some candidate \<Rightarrow>
               (case refine_loop (rev anchors) p candidate of
                  Inl e \<Rightarrow> Inl e
                | Inr best \<Rightarrow> Inr (Some best))))"

text \<open>
  \<^verbatim>\<open>annotate_chunks_with_sections\<close>. Each pass sets \<^verbatim>\<open>start = current_process\<close> and
  looks the anchor up for it; for an anchor it calls \<^verbatim>\<open>anchor.lebel()\<close>, a method
  \<^verbatim>\<open>Anchor\<close> does not have (nor has it \<^verbatim>\<open>label\<close>, which the module defines as a
  function of its own), so a found anchor raises AttributeError.
\<close>

fun annotate_loop ::
  "Anchor list \<Rightarrow> ustr list \<Rightarrow> int \<Rightarrow> ustr option list \<Rightarrow> error + ustr option list" where
  "annotate_loop anchors [] cur labels = Inr labels"
| "annotate_loop anchors (ch # rest) cur labels =
     (case best_anchor_for_pos anchors (PFunction ''current_process'') of
        Inl e \<Rightarrow> Inl e
      | Inr None \<Rightarrow> annotate_loop anchors rest (cur + int (length ch) + 1) (labels @ [None])
      | Inr (Some anchor) \<Rightarrow> Inl (AttributeError ''lebel''))"

definition annotate_chunks_with_sections :: "ucd \<Rightarrow> ustr \<Rightarrow> ustr list \<Rightarrow> error + ustr option list" where
  "annotate_chunks_with_sections U text chs =
     (case find_anchors U text of
        Inl e \<Rightarrow> Inl e
      | Inr anchors \<Rightarrow> annotate_loop anchors chs 0 [])"

subsection \<open>The anchor invariants of the specification\<close>

text \<open>
  Anchors ordered by start; each end is the next start, the last end the length of the
  text; every start before its end; no two anchors with the same start and id.
\<close>

fun chained :: "int \<Rightarrow> Anchor list \<Rightarrow> bool" where
  "chained n [] = True"
| "chained n [a] = (a_end a = n)"
| "chained n (a # b # rest) = (a_end a = a_start b \<and> chained n (b # rest))"

definition anchors_wellformed :: "ustr \<Rightarrow> Anchor list \<Rightarrow> bool" where
  "anchors_wellformed text anchors =
     (sorted (map a_start anchors) \<and> chained (int (length text)) anchors
      \<and> list_all (\<lambda>a. a_start a < a_end a) anchors
      \<and> distinct (map (\<lambda>a. (a_start a, a_id a)) anchors))"

subsection \<open>The anchors of the kinds that \<open>mk_anchor\<close> accepts\<close>

text \<open>
  What one loop of \<open>find_anchors\<close> appends for a kind whose level is a constant
  (section, appendix, table, figure): one anchor per match, with \<open>end = 1\<close>.
\<close>

definition plain_anchors ::
  "ucd \<Rightarrow> ustr \<Rightarrow> string \<Rightarrow> int \<Rightarrow> re_flags \<Rightarrow> rx \<Rightarrow> Anchor list" where
  "plain_anchors U text kind level F pat =
     map (\<lambda>m. \<lparr>a_kind = kind, a_id = strip (group_text text m ''id''),
                a_title = strip (case group text m ''title'' of None \<Rightarrow> [] | Some t \<Rightarrow> t),
                a_start = int (fst m), a_end = 1, a_level = level,
                a_raw_kind = Some (group_text text m ''kind'')\<rparr>)
       (finditer U F pat text)"

text \<open>
  The text of scenario 3: \<^verbatim>\<open>Razdel 1. Obshchie polozheniya\<close>, a line of three dots,
  \<^verbatim>\<open>Razdel 2. Terminy\<close> (in Russian letters).
\<close>

definition scenario3_text :: ustr where
  "scenario3_text =
     [1056, 1072, 1079, 1076, 1077, 1083, 32, 49, 46, 32, 1054, 1073, 1097, 1080, 1077, 32,
      1087, 1086, 1083, 1086, 1078, 1077, 1085, 1080, 1103, 10, 46, 46, 46, 10,
      1056, 1072, 1079, 1076, 1077, 1083, 32, 50, 46, 32, 1058, 1077, 1088, 1084, 1080, 1085,
      1099]"

definition scenario3_anchors :: "Anchor list" where
  "scenario3_anchors =
     [\<lparr>a_kind = ''section'', a_id = [49],
       a_title = [1054, 1073, 1097, 1080, 1077, 32, 1087, 1086, 1083, 1086, 1078, 1077, 1085,
                  1080, 1103],
       a_start = 0, a_end = 30, a_level = 1,
       a_raw_kind = Some [1056, 1072, 1079, 1076, 1077, 1083]\<rparr>,
      \<lparr>a_kind = ''section'', a_id = [50], a_title = [1058, 1077, 1088, 1084, 1080, 1085, 1099],
       a_start = 30, a_end = 47, a_level = 1,
       a_raw_kind = Some [1056, 1072, 1079, 1076, 1077, 1083]\<rparr>]"

section \<open>Normalizer (normalizer.py)\<close>

text \<open>
  The dataclass \<^verbatim>\<open>CleanConfig\<close>, field for field. The source names the bullet field
  \<^verbatim>\<open>bullet_sumbol\<close>. A pattern of \<^verbatim>\<open>extra_header_footer_regexes\<close> is kept in the
  form \<^verbatim>\<open>re.compile\<close> gives it: \<open>None\<close> stands for a string that \<^verbatim>\<open>re.compile\<close>
  rejects with \<^verbatim>\<open>re.error\<close>.
\<close>

record CleanConfig =
  remove_page_numbers :: bool
  remove_headers_footers :: bool
  header_min_repeats :: int
  header_max_len :: int
  extra_header_footer_regexes :: "rx option list"
  normalize_bullets :: bool
  bullet_sumbol :: ustr
  max_consecutive_newlines :: int
  collapse_spaces :: bool
  fix_hyphenation :: bool
  normalize_dashes :: bool
  soften_inline_newlines :: bool
  inline_newline_window :: int

definition default_CleanConfig :: CleanConfig where
  "default_CleanConfig =
     \<lparr>remove_page_numbers = True, remove_headers_footers = True, header_min_repeats = 3,
      header_max_len = 120, extra_header_footer_regexes = [], normalize_bullets = True,
      bullet_sumbol = [45], max_consecutive_newlines = 2, collapse_spaces = True,
      fix_hyphenation = True, normalize_dashes = True, soften_inline_newlines = False,
      inline_newline_window = 60\<rparr>"

subsection \<open>The patterns\<close>

text \<open>
  The hyphens and dashes are U+002D (45) and U+2010..U+2015 (8208..8213); the bullet
  characters U+2022 (8226), U+00B7 (183) and the asterisk (42); the numero sign is 8470.
  str 1089 1090 1088, stranitsa 1089 1090 1088 1072 1085 1080 1094 1072,
  prodolzhenie 1087 1088 1086 1076 1086 1083 1078 1077 1085 1080 1077,
  okonchanie 1086 1082 1086 1085 1095 1072 1085 1080 1077,
  tablitsy 1090 1072 1073 1083 1080 1094 1099, tablitsa 1090 1072 1073 1083 1080 1094 1072,
  risunok 1088 1080 1089 1091 1085 1086 1082, Izdanie 1048 1079 1076 1072 1085 1080 1077,
  Izm 1048 1079 1084, g 1075.
\<close>

definition hyphens :: "citem list" where
  "hyphens = [CChar 45, CChar 8208, CChar 8209, CChar 8210, CChar 8211, CChar 8212, CChar 8213]"

definition RE_HYPHEN_NEWLINE :: rx where
  "RE_HYPHEN_NEWLINE = seqs [Grp ''1'' (Cls [CWord]), Cls hyphens, Lit 10, Grp ''2'' (Cls [CWord])]"

definition RE_SOFT_HYPHEN :: rx where
  "RE_SOFT_HYPHEN = Lit 173"

definition RE_BULLET_LINE :: rx where
  "RE_BULLET_LINE =
     seqs [Bol,
       plus (Cls [CSpace, CChar 8226, CChar 183, CChar 42, CChar 45, CChar 8211, CChar 8212]),
       plus ws]"

definition RE_ANY_DASH :: rx where
  "RE_ANY_DASH =
     plus (Cls [CChar 8208, CChar 8209, CChar 8210, CChar 8211, CChar 8212, CChar 8213])"

definition dash_opt :: rx where
  "dash_opt = opt (Cls [CChar 8211, CChar 8212, CChar 45])"

definition RE_PAGE_NUM_PURE :: rx where
  "RE_PAGE_NUM_PURE =
     seqs [Bol, star ws, dash_opt, star ws, Rep digit 1 (Some 4), star ws, dash_opt, star ws, Eol]"

definition RE_PAGE_WORD :: rx where
  "RE_PAGE_WORD =
     seqs [Bol, star ws,
       Grp ''1'' (alts [Seq (word [1089, 1090, 1088]) (opt (Lit 46)),
                        word [1089, 1090, 1088, 1072, 1085, 1080, 1094, 1072],
                        word [112, 97, 103, 101]]),
       star ws, opt (Cls [CChar 8470, CChar 58]), star ws, Rep digit 1 (Some 4), star ws, Eol]"

definition RE_DATE_LINE :: rx where
  "RE_DATE_LINE =
     seqs [Bol, star ws,
       Alt (seqs [Rep digit 1 (Some 2), Cls [CChar 46, CChar 47], Rep digit 1 (Some 2),
                  Cls [CChar 46, CChar 47], Rep digit 2 (Some 4)])
           (seqs [plus (Cls [CRange 1040 1071, CRange 1072 1103, CRange 65 90, CRange 97 122]),
                  plus ws, Rep digit 4 (Some 4), star ws, word [1075, 46]]),
       star ws, Eol]"

definition RE_HEADER_HINT :: rx where
  "RE_HEADER_HINT =
     alts [seqs [Grp ''1'' kw_standard, plus ws,
                 plus (Cls [CRange 65 90, CRange 1040 1071, CRange 48 57, CChar 45, CChar 46,
                            CChar 58, CChar 47])],
           word [1048, 1079, 1076, 1072, 1085, 1080, 1077],
           seqs [word [1048, 1079, 1084], Lit 46, star ws, plus digit],
           word [85, 84, 68],
           word [73, 83, 79]]"

text \<open>\<^verbatim>\<open>\s+\d+([.,].*)?$\<close>, the tail of the three table and figure patterns.\<close>

definition number_tail :: rx where
  "number_tail =
     seqs [plus ws, plus digit, opt (Grp ''2'' (Seq (Cls [CChar 46, CChar 44]) (star Dot))), Eol]"

definition RE_TABLE_CONT :: rx where
  "RE_TABLE_CONT =
     seqs [Bol, star ws,
       Grp ''1'' (Alt (word [1087, 1088, 1086, 1076, 1086, 1083, 1078, 1077, 1085, 1080, 1077])
                      (word [1086, 1082, 1086, 1085, 1095, 1072, 1085, 1080, 1077])),
       plus ws, word [1090, 1072, 1073, 1083, 1080, 1094, 1099], number_tail]"

definition RE_TABLE_HEAD :: rx where
  "RE_TABLE_HEAD = seqs [Bol, star ws, word [1090, 1072, 1073, 1083, 1080, 1094, 1072], number_tail]"

definition RE_FIG_HEAD :: rx where
  "RE_FIG_HEAD = seqs [Bol, star ws, word [1088, 1080, 1089, 1091, 1085, 1086, 1082], number_tail]"

subsection \<open>The stages\<close>

text \<open>
  The stage functions are named as in the source; where a field of \<open>CleanConfig\<close>
  has the name already, the function carries the suffix \<open>_text\<close>.
\<close>

definition strip_control_chars :: "ucd \<Rightarrow> ustr \<Rightarrow> ustr" where
  "strip_control_chars U text = filter (\<lambda>ch. ch = 10 \<or> ch = 9 \<or> \<not> u_category_C U ch) text"

definition normalize_unicode :: "ucd \<Rightarrow> ustr \<Rightarrow> ustr" where
  "normalize_unicode U text = re_sub U no_flags RE_SOFT_HYPHEN (\<lambda>m. []) (u_nfkc U text)"

text \<open>One pass replaces every match by its two groups; at most three passes.\<close>

definition hyphen_pass :: "ucd \<Rightarrow> ustr \<Rightarrow> ustr" where
  "hyphen_pass U text =
     re_sub U no_flags RE_HYPHEN_NEWLINE
       (\<lambda>m. group_text text m ''1'' @ group_text text m ''2'') text"

fun fix_hyphenation_loop :: "ucd \<Rightarrow> nat \<Rightarrow> ustr \<Rightarrow> ustr" where
  "fix_hyphenation_loop U 0 text = text"
| "fix_hyphenation_loop U (Suc k) text =
     (let new_text = hyphen_pass U text
      in if new_text = text then text else fix_hyphenation_loop U k new_text)"

definition fix_hyphenation_text :: "ucd \<Rightarrow> ustr \<Rightarrow> ustr" where
  "fix_hyphenation_text U text = fix_hyphenation_loop U 3 text"

definition normalize_bullets_text :: "ucd \<Rightarrow> ustr \<Rightarrow> ustr \<Rightarrow> ustr" where
  "normalize_bullets_text U text bullet_symbol =
     re_sub U flags_M RE_BULLET_LINE (\<lambda>m. bullet_symbol @ [32]) text"

definition normalize_dashes_text :: "ucd \<Rightarrow> ustr \<Rightarrow> ustr" where
  "normalize_dashes_text U text = re_sub U no_flags RE_ANY_DASH (\<lambda>m. [45]) text"

text \<open>
  \<^verbatim>\<open>_soften_inline_newlines\<close>. The test
  \<^verbatim>\<open>0 < len(cur) <= window and 0 < len(nxt) <= windows\<close> is evaluated from the left;
  once \<^verbatim>\<open>0 < len(cur) <= window\<close> and \<^verbatim>\<open>0 < len(nxt)\<close> hold it reads the undefined
  name \<^verbatim>\<open>windows\<close>. So no pair of lines is ever merged: the loop copies lines until
  it raises.
\<close>

fun soften_loop :: "int \<Rightarrow> ustr list \<Rightarrow> error + ustr list" where
  "soften_loop window [] = Inr []"
| "soften_loop window [cur] = Inr [cur]"
| "soften_loop window (cur # nxt # rest) =
     (if 0 < length cur \<and> int (length cur) \<le> window \<and> 0 < length nxt
      then Inl (NameError ''windows'')
      else (case soften_loop window (nxt # rest) of
              Inl e \<Rightarrow> Inl e
            | Inr out \<Rightarrow> Inr (cur # out)))"

definition soften_inline_newlines_text :: "ustr \<Rightarrow> int \<Rightarrow> error + ustr" where
  "soften_inline_newlines_text text window =
     (case soften_loop window (split_nl text) of
        Inl e \<Rightarrow> Inl e
      | Inr out \<Rightarrow> Inr (join [10] out))"

definition collapse_spaces_and_newlines :: "ucd \<Rightarrow> ustr \<Rightarrow> bool \<Rightarrow> int \<Rightarrow> ustr" where
  "collapse_spaces_and_newlines U text collapse max_newlines =
     (let text1 = (if collapse
                   then re_sub U no_flags (Rep (Lit 32) 2 None) (\<lambda>m. [32])
                          (map (\<lambda>c. if c = 9 then 32 else c) text)
                   else text);
          text2 = (if max_newlines \<ge> 1
                   then re_sub U no_flags (Rep (Lit 10) (nat (max_newlines + 1)) None)
                          (\<lambda>m. replicate (nat max_newlines) 10) text1
                   else text1)
      in strip text2)"

subsection \<open>Header and footer lines\<close>

definition matches :: "ucd \<Rightarrow> re_flags \<Rightarrow> rx \<Rightarrow> ustr \<Rightarrow> bool" where
  "matches U F x s \<longleftrightarrow> re_match U F x s \<noteq> None"

definition found :: "ucd \<Rightarrow> re_flags \<Rightarrow> rx \<Rightarrow> ustr \<Rightarrow> bool" where
  "found U F x s \<longleftrightarrow> re_search U F x s \<noteq> None"

text \<open>The patterns of the configuration that compile; the others are skipped.\<close>

definition extra_compiled :: "CleanConfig \<Rightarrow> rx list" where
  "extra_compiled cfg = concat (map (\<lambda>p. case p of None \<Rightarrow> [] | Some x \<Rightarrow> [x])
                                  (extra_header_footer_regexes cfg))"

text \<open>The dictionary \<^verbatim>\<open>freq\<close>: how often each short candidate line occurs.\<close>

fun count_freq :: "ucd \<Rightarrow> CleanConfig \<Rightarrow> ustr list \<Rightarrow> (ustr \<rightharpoonup> int) \<Rightarrow> (ustr \<rightharpoonup> int)" where
  "count_freq U cfg [] freq = freq"
| "count_freq U cfg (raw # rest) freq =
     (let s = strip raw
      in if s = [] \<or> int (length s) > header_max_len cfg then count_freq U cfg rest freq
         else if found U flags_I RE_HEADER_HINT s \<or> matches U flags_I RE_PAGE_WORD s
                 \<or> matches U no_flags RE_PAGE_NUM_PURE s
              then count_freq U cfg rest
                     (freq(s \<mapsto> (case freq s of None \<Rightarrow> 0 | Some n \<Rightarrow> n) + 1))
              else count_freq U cfg rest freq)"

text \<open>Whether the second loop drops a line; \<open>s\<close> is the stripped line, not empty.\<close>

definition dropped :: "ucd \<Rightarrow> CleanConfig \<Rightarrow> (ustr \<rightharpoonup> int) \<Rightarrow> ustr \<Rightarrow> bool" where
  "dropped U cfg freq s =
     (if remove_page_numbers cfg
         \<and> (matches U no_flags RE_PAGE_NUM_PURE s \<or> matches U flags_I RE_PAGE_WORD s) then True
      else if matches U no_flags RE_DATE_LINE s then True
      else if matches U flags_I RE_TABLE_CONT s then True
      else
        let is_headerish = (found U flags_I RE_HEADER_HINT s \<or> matches U flags_I RE_TABLE_HEAD s
                            \<or> matches U flags_I RE_FIG_HEAD s);
            repeated_enough = ((case freq s of None \<Rightarrow> 0 | Some n \<Rightarrow> n) \<ge> header_min_repeats cfg)
        in if remove_headers_footers cfg \<and> is_headerish
              \<and> (repeated_enough \<or> int (length s) \<le> header_max_len cfg) then True
           else if list_ex (\<lambda>p. found U flags_I p s) (extra_compiled cfg) then True
           else False)"

definition drop_header_footer_lines :: "ucd \<Rightarrow> ustr list \<Rightarrow> CleanConfig \<Rightarrow> ustr list" where
  "drop_header_footer_lines U lines cfg =
     (let freq = count_freq U cfg lines Map.empty
      in filter (\<lambda>ln. let s = strip ln in s = [] \<or> \<not> dropped U cfg freq s) lines)"

subsection \<open>clean\<close>

text \<open>
  Reading \<^verbatim>\<open>cfg.bullet_symbol\<close>: \<^verbatim>\<open>CleanConfig\<close> has no attribute of that name
  (its field is \<^verbatim>\<open>bullet_sumbol\<close>), so the read raises AttributeError.
\<close>

definition get_bullet_symbol :: "CleanConfig \<Rightarrow> error + ustr" where
  "get_bullet_symbol cfg = Inl (AttributeError ''bullet_symbol'')"

text \<open>\<^verbatim>\<open>cfg = config or CleanConfig()\<close>\<close>

definition effective_config :: "CleanConfig option \<Rightarrow> CleanConfig" where
  "effective_config config = (case config of None \<Rightarrow> default_CleanConfig | Some c \<Rightarrow> c)"

definition clean :: "ucd \<Rightarrow> ustr \<Rightarrow> CleanConfig option \<Rightarrow> error + ustr" where
  "clean U text config =
     (let cfg = effective_config config;
          text1 = strip_control_chars U (normalize_unicode U text);
          text2 = (if fix_hyphenation cfg then fix_hyphenation_text U text1 else text1);
          text3 = (if normalize_dashes cfg then normalize_dashes_text U text2 else text2)
      in case (if normalize_bullets cfg
               then (case get_bullet_symbol cfg of
                       Inl e \<Rightarrow> Inl e
                     | Inr symbol \<Rightarrow> Inr (normalize_bullets_text U text3 symbol))
               else Inr text3) of
           Inl e \<Rightarrow> Inl e
         | Inr text4 \<Rightarrow>
             let lines = drop_header_footer_lines U (splitlines text4) cfg;
                 text5 = join [10] lines
             in case (if soften_inline_newlines cfg
                      then soften_inline_newlines_text text5 (inline_newline_window cfg)
                      else Inr text5) of
                  Inl e \<Rightarrow> Inl e
                | Inr text6 \<Rightarrow>
                    Inr (collapse_spaces_and_newlines U text6 (collapse_spaces cfg)
                           (max_consecutive_newlines cfg)))"

text \<open>\<^verbatim>\<open>clean(clean(t))\<close>: the second call runs on what the first returned.\<close>

definition clean_twice :: "ucd \<Rightarrow> ustr \<Rightarrow> CleanConfig option \<Rightarrow> error + ustr" where
  "clean_twice U text config =
     (case clean U text config of Inl e \<Rightarrow> Inl e | Inr u \<Rightarrow> clean U u config)"

subsection \<open>Runs of one character\<close>

text \<open>
  The two substitutions of the last stage replace runs of one character: two or more
  spaces by one space, and more than \<open>N\<close> line feeds by \<open>N\<close>. \<open>run a r\<close> is the
  number of \<open>a\<close> at the front of \<open>r\<close>, \<open>find_run a lo r\<close> the offset of the first
  run of at least \<open>lo\<close>, and \<open>squeeze a lo rep r\<close> is \<open>r\<close> with every maximal run of
  at least \<open>lo\<close> replaced by \<open>rep\<close>. The stage is then made of \<open>sp_stage\<close>,
  \<open>nl_stage\<close> and \<open>strip\<close>.
\<close>

definition run :: "nat \<Rightarrow> ustr \<Rightarrow> nat" where
  "run a r = length (takeWhile (\<lambda>x. x = a) r)"

fun find_run :: "nat \<Rightarrow> nat \<Rightarrow> ustr \<Rightarrow> nat option" where
  "find_run a lo [] = None"
| "find_run a lo (x # xs) =
     (if lo \<le> run a (x # xs) then Some 0 else map_option Suc (find_run a lo xs))"

function squeeze :: "nat \<Rightarrow> nat \<Rightarrow> ustr \<Rightarrow> ustr \<Rightarrow> ustr" where
  "squeeze a lo rep [] = []"
| "squeeze a lo rep (x # xs) =
     (if 0 < lo \<and> lo \<le> run a (x # xs)
      then rep @ squeeze a lo rep (drop (run a (x # xs)) (x # xs))
      else x # squeeze a lo rep xs)"
  by pat_completeness auto
termination
  by (relation "measure (\<lambda>(a, lo, rep, r). length r)") auto

definition untab :: "ustr \<Rightarrow> ustr" where
  "untab t = map (\<lambda>c. if c = 9 then 32 else c) t"

definition sp_stage :: "bool \<Rightarrow> ustr \<Rightarrow> ustr" where
  "sp_stage c t = (if c then squeeze 32 2 [32] (untab t) else t)"

definition nl_stage :: "int \<Rightarrow> ustr \<Rightarrow> ustr" where
  "nl_stage n t = (if n \<ge> 1 then squeeze 10 (nat (n + 1)) (replicate (nat n) 10) t else t)"

text \<open>
  The text of scenario 1, \<^verbatim>\<open>Stranitsa 3\<close>, blank line, \<^verbatim>\<open>Osnovnoi tekst.\<close>, blank
  line, \<^verbatim>\<open>Stranitsa 3\<close> (in Russian letters), and the text it should become.
\<close>

definition scenario1_text :: ustr where
  "scenario1_text =
     [1057, 1090, 1088, 1072, 1085, 1080, 1094, 1072, 32, 51, 10, 10,
      1054, 1089, 1085, 1086, 1074, 1085, 1086, 1081, 32, 1090, 1077, 1082, 1089, 1090, 46, 10, 10,
      1057, 1090, 1088, 1072, 1085, 1080, 1094, 1072, 32, 51]"

definition scenario1_expected :: ustr where
  "scenario1_expected =
     [1054, 1089, 1085, 1086, 1074, 1085, 1086, 1081, 32, 1090, 1077, 1082, 1089, 1090, 46]"

text \<open>The line \<^verbatim>\<open>Stranitsa 3\<close> of scenario 1, and the configuration of the scenario.\<close>

definition page_line :: ustr where
  "page_line = [1057, 1090, 1088, 1072, 1085, 1080, 1094, 1072, 32, 51]"

definition scenario1_config :: CleanConfig where
  "scenario1_config = default_CleanConfig\<lparr>header_min_repeats := 2\<rparr>"

text \<open>
  The default configuration with \<^verbatim>\<open>normalize_bullets\<close> off, and the text \<^verbatim>\<open>x-\<close>, line
  feed, space, \<^verbatim>\<open>5\<close>, line feed, \<^verbatim>\<open>y\<close>: a hyphenated line end, a page number line
  and the continuation of the word.
\<close>

definition no_bullets_config :: CleanConfig where
  "no_bullets_config = default_CleanConfig\<lparr>normalize_bullets := False\<rparr>"

definition hyphen_page_text :: ustr where
  "hyphen_page_text = [120, 45, 10, 32, 53, 10, 121]"

section \<open>Evaluating the patterns\<close>

text \<open>The equations that let the simplifier run the matcher on a given text.\<close>

lemmas regex_eval =
  re_split_def re_sub_def finditer_def re_match_def re_search_def match_here_def group_def
  cls_match_def lit_match_def is_space_def
  no_flags_def flags_I_def flags_M_def flags_IM_def
  ucd_ru_def ru_lower_def ru_upper_def dotted_number_def

subsection \<open>Substituting runs of one character\<close>

text \<open>
  On a pattern \<^verbatim>\<open>a{lo,}\<close> the matcher takes the whole run of \<open>a\<close> at the cursor, the
  search finds the first run that is long enough, and the substitution is \<open>squeeze\<close>.
\<close>

lemma run_simps [simp]:
  "run a [] = 0"
  "run a (x # xs) = (if x = a then Suc (run a xs) else 0)"
  by (simp_all add: run_def)

lemma run_le_length: "run a r \<le> length r"
  by (simp add: run_def length_takeWhile_le)

lemma mt_rep_lit:
  "mt U no_flags (Rep (Lit a) lo None) (\<lambda>pv r n c. Some (f pv r n c)) pv r n c =
     (if lo \<le> run a r
      then Some (f (if run a r = 0 then pv else Some a) (drop (run a r) r) (n + run a r) c)
      else None)"
proof (induction r arbitrary: lo pv n)
  case Nil
  show ?case by (simp add: lit_match_def no_flags_def)
next
  case (Cons x xs)
  show ?case
  proof (cases "x = a")
    case False
    then show ?thesis by (simp add: lit_match_def no_flags_def)
  next
    case True
    have step: "mt U no_flags (Rep (Lit a) lo None) (\<lambda>pv r n c. Some (f pv r n c)) pv (a # xs) n c
        = (case mt U no_flags (Rep (Lit a) (lo - 1) None) (\<lambda>pv r n c. Some (f pv r n c))
                  (Some a) xs (Suc n) c of
             Some v \<Rightarrow> Some v
           | None \<Rightarrow> if lo = 0 then Some (f pv (a # xs) n c) else None)"
      by (subst mt.simps(11)) (simp add: lit_match_def no_flags_def del: mt.simps(11))
    show ?thesis
      unfolding True step Cons.IH
      by (auto split: if_splits)
  qed
qed

lemma match_here_rep_lit:
  "match_here U no_flags (Rep (Lit a) lo None) pv r n =
     (if lo \<le> run a r
      then Some ((n, n + run a r, []), (if run a r = 0 then pv else Some a), drop (run a r) r)
      else None)"
  unfolding match_here_def
  by (rule mt_rep_lit [where f = "\<lambda>pv' r' n' c'. ((n, n', c'), pv', r')"])

lemma search_rep_lit:
  "0 < lo \<Longrightarrow>
   search_from U no_flags (Rep (Lit a) lo None) pv r n =
     (case find_run a lo r of
        None \<Rightarrow> None
      | Some j \<Rightarrow> Some ((n + j, n + j + run a (drop j r), []), Some a,
                        drop (j + run a (drop j r)) r))"
proof (induction r arbitrary: pv n)
  case Nil
  then show ?case by (simp add: match_here_rep_lit)
next
  case (Cons x xs)
  show ?case
  proof (cases "lo \<le> run a (x # xs)")
    case True
    with Cons.prems have "run a (x # xs) \<noteq> 0" by linarith
    with True show ?thesis
      by (simp add: match_here_rep_lit del: run_simps)
  next
    case False
    then show ?thesis
      by (simp add: match_here_rep_lit Cons.IH [OF Cons.prems] del: run_simps
          split: option.splits)
  qed
qed

lemma find_run_bounds:
  "find_run a lo r = Some j \<Longrightarrow> lo \<le> run a (drop j r) \<and> j + run a (drop j r) \<le> length r"
proof (induction r arbitrary: j)
  case Nil
  then show ?case by simp
next
  case (Cons x xs)
  show ?case
  proof (cases "lo \<le> run a (x # xs)")
    case True
    with Cons.prems have "j = 0" by simp
    with True run_le_length [of a "x # xs"] show ?thesis by (simp del: run_simps)
  next
    case False
    with Cons.prems obtain j' where j: "j = Suc j'" "find_run a lo xs = Some j'"
      by auto
    from Cons.IH [OF j(2)] j(1) show ?thesis by simp
  qed
qed

lemma squeeze_no_run: "find_run a lo r = None \<Longrightarrow> squeeze a lo rep r = r"
  by (induction r) (auto split: if_splits)

lemma squeeze_at_run:
  "0 < lo \<Longrightarrow> find_run a lo r = Some j \<Longrightarrow>
     squeeze a lo rep r = take j r @ rep @ squeeze a lo rep (drop (j + run a (drop j r)) r)"
proof (induction r arbitrary: j)
  case Nil
  then show ?case by simp
next
  case (Cons x xs)
  show ?case
  proof (cases "lo \<le> run a (x # xs)")
    case True
    with Cons.prems have "j = 0" by simp
    with True Cons.prems(1) show ?thesis by (simp del: run_simps)
  next
    case False
    with Cons.prems obtain j' where j: "j = Suc j'" "find_run a lo xs = Some j'"
      by auto
    from Cons.IH [OF Cons.prems(1) j(2)] j(1) False show ?thesis by (simp del: run_simps)
  qed
qed

lemma sub_rep_lit:
  "0 < lo \<Longrightarrow> drop i s = r \<Longrightarrow>
     sub_pieces s (\<lambda>m. rep) i (finditer_from U no_flags (Rep (Lit a) lo None) pv r i)
       = squeeze a lo rep r"
proof (induction "length r" arbitrary: r i pv rule: less_induct)
  case less
  show ?case
  proof (cases "find_run a lo r")
    case None
    with less.prems show ?thesis
      by (subst finditer_from.simps) (simp add: search_rep_lit squeeze_no_run)
  next
    case (Some j)
    let ?k = "run a (drop j r)"
    let ?r' = "drop (j + ?k) r"
    from find_run_bounds [OF Some] less.prems(1)
    have k: "lo \<le> ?k" "j + ?k \<le> length r" "0 < ?k" by auto
    then have shorter: "length ?r' < length r" by simp
    have dr: "drop (i + j + ?k) s = ?r'"
      unfolding less.prems(2) [symmetric] by (simp add: ac_simps)
    have it: "finditer_from U no_flags (Rep (Lit a) lo None) pv r i
        = (i + j, i + j + ?k, []) # finditer_from U no_flags (Rep (Lit a) lo None) (Some a) ?r'
             (i + j + ?k)"
      using shorter by (subst finditer_from.simps) (simp add: search_rep_lit [OF less.prems(1)] Some)
    have "sub_pieces s (\<lambda>m. rep) i (finditer_from U no_flags (Rep (Lit a) lo None) pv r i)
        = take j r @ rep @ squeeze a lo rep ?r'"
      unfolding it using less.hyps [OF shorter less.prems(1) dr] less.prems(2) by simp
    also have "\<dots> = squeeze a lo rep r"
      by (rule squeeze_at_run [OF less.prems(1) Some, symmetric])
    finally show ?thesis .
  qed
qed

lemma re_sub_rep_lit:
  "0 < lo \<Longrightarrow> re_sub U no_flags (Rep (Lit a) lo None) (\<lambda>m. rep) s = squeeze a lo rep s"
  unfolding re_sub_def finditer_def
  by (rule sub_rep_lit) simp_all

section \<open>Properties of the Segmenter\<close>

subsection \<open>The soft cut\<close>

text \<open>
  The sentence loop either raises at the first sentence that is not shorter than
  \<^verbatim>\<open>min_len\<close>, or leaves its state as it was.
\<close>

lemma soft_cut_sentences_eq:
  "soft_cut_sentences cfg target sents st =
     (if list_ex (\<lambda>s. min_len cfg \<le> int (length s)) sents then Inl (NameError ''ens'')
      else Inr st)"
  by (induction sents) (simp_all add: Let_def)

lemma soft_cut_eq:
  "soft_cut U buffer cfg =
     (if int (length buffer) \<le> max_len cfg then Inr (- 1)
      else if list_ex (\<lambda>s. min_len cfg \<le> int (length s)) (split_sentences U buffer)
           then Inl (NameError ''ens'')
           else Inl (NameError ''rigth''))"
  by (simp add: soft_cut_def soft_cut_sentences_eq Let_def)

lemma sent_split_no_match:
  "pv = None \<or> pv = Some 97 \<Longrightarrow>
     match_here U no_flags SENT_SPLIT_RE pv (replicate n 97) k = None"
  by (auto simp: match_here_def SENT_SPLIT_RE_def cls_match_def no_flags_def split: option.splits)

lemma sent_split_search_none:
  "pv = None \<or> pv = Some 97 \<Longrightarrow>
     search_from U no_flags SENT_SPLIT_RE pv (replicate n 97) k = None"
proof (induction n arbitrary: pv k)
  case 0
  then show ?case
    using sent_split_no_match [of pv U 0 k] by simp
next
  case (Suc n)
  have here: "match_here U no_flags SENT_SPLIT_RE pv (97 # replicate n 97) k = None"
    using sent_split_no_match [OF Suc.prems, of U "Suc n" k] by simp
  have rest: "search_from U no_flags SENT_SPLIT_RE (Some 97) (replicate n 97) (Suc k) = None"
    by (rule Suc.IH) simp
  show ?case by (simp add: here rest)
qed

lemma strip_replicate_a: "strip (replicate n 97) = replicate n 97"
proof (cases n)
  case 0
  then show ?thesis by (simp add: strip_def)
next
  case (Suc m)
  have ns: "\<not> is_space 97" by (simp add: is_space_def)
  have front: "dropWhile is_space (replicate (Suc m) 97) = replicate (Suc m) 97"
    using ns by simp
  show ?thesis
    unfolding Suc strip_def front rev_replicate
    using front by simp
qed

lemma split_sentences_replicate_a:
  "0 < n \<Longrightarrow> split_sentences U (replicate n 97) = [replicate n 97]"
  by (simp add: split_sentences_def re_split_def finditer_def sent_split_search_none
      strip_replicate_a)

text \<open>
  C6 (the code departs from the claim). The claim: the soft cut reports no cut (\<open>-1\<close>)
  when the buffer is not longer than \<^verbatim>\<open>max_len\<close>; otherwise it returns the end of the
  sentence in \<open>[min_len, max_len]\<close> closest to \<^verbatim>\<open>target_len\<close>, else the whitespace nearest
  the target, else no cut. The code: \<open>-1\<close> for a buffer not longer than \<^verbatim>\<open>max_len\<close>, as
  claimed; for every longer buffer a NameError and never an offset, the undefined name
  being \<^verbatim>\<open>ens\<close> when some sentence is at least \<^verbatim>\<open>min_len\<close> long and \<^verbatim>\<open>rigth\<close>
  otherwise.
\<close>

theorem soft_cut_raises_beyond_max_len:
  "soft_cut U buffer cfg =
     (if int (length buffer) \<le> max_len cfg then Inr (- 1)
      else if list_ex (\<lambda>s. min_len cfg \<le> int (length s)) (split_sentences U buffer)
           then Inl (NameError ''ens'')
           else Inl (NameError ''rigth''))"
  by (rule soft_cut_eq)

theorem soft_cut_raises_beyond_max_len_witness:
  "soft_cut ucd_ru (replicate 1300 97) default_SegmentConfig = Inl (NameError ''ens'')
   \<and> soft_cut ucd_ru (replicate 1200 97) default_SegmentConfig = Inr (- 1)
   \<and> soft_cut ucd_ru [97, 46, 32, 98, 46, 32, 99, 46]
        \<lparr>target_len = 4, max_len = 5, min_len = 3, overlap = 1, prefer_headings = True,
         min_par_len = 1, min_sent_len = 1\<rparr> = Inl (NameError ''rigth'')"
proof -
  have s3: "split_sentences ucd_ru [97, 46, 32, 98, 46, 32, 99, 46] = [[97, 46], [98, 46], [99, 46]]"
    by (simp add: split_sentences_def SENT_SPLIT_RE_def re_split_def finditer_def match_here_def
        cls_match_def is_space_def no_flags_def strip_def)
  show ?thesis
    using soft_cut_raises_beyond_max_len [of ucd_ru "replicate 1300 97" default_SegmentConfig]
      soft_cut_raises_beyond_max_len [of ucd_ru "replicate 1200 97" default_SegmentConfig]
      soft_cut_raises_beyond_max_len [of ucd_ru "[97, 46, 32, 98, 46, 32, 99, 46]"
        "\<lparr>target_len = 4, max_len = 5, min_len = 3, overlap = 1, prefer_headings = True,
          min_par_len = 1, min_sent_len = 1\<rparr>"]
    by (simp add: s3 split_sentences_replicate_a default_SegmentConfig_def)
qed

subsection \<open>Chunking\<close>

lemma build_items_unbound:
  "build_items U None pars items = (if pars = [] then Inr items else Inl (UnboundLocalError ''p''))"
  by (cases pars) simp_all

lemma chunk_text_with_spans_eq:
  "chunk_text_with_spans U text cfg =
     (if split_paragraphs U text = [] then Inr None else Inl (UnboundLocalError ''p''))"
  by (simp add: chunk_text_with_spans_def build_items_unbound Let_def)

text \<open>
  C2 (the code departs from the claim). The claim: for every text and configuration the
  chunks returned by \<open>chunk_text_with_spans\<close>, with the leading overlap taken off every
  chunk but the first, concatenate to the text; every span is as long as its chunk; the
  span starts do not decrease. The code returns no chunks for any input: a text with a
  paragraph raises UnboundLocalError in the first loop (it reads \<^verbatim>\<open>p\<close> where the loop
  variable is \<^verbatim>\<open>par\<close>), and a text without one falls off the end of the function,
  whose \<^verbatim>\<open>return\<close> is inside the second loop, and yields \<^verbatim>\<open>None\<close>.
\<close>

theorem chunk_text_with_spans_returns_no_chunks:
  "chunk_text_with_spans U text cfg =
     (if split_paragraphs U text = [] then Inr None else Inl (UnboundLocalError ''p''))
   \<and> (\<nexists>r. chunk_text_with_spans U text cfg = Inr (Some r) \<and> covers text cfg r)"
  by (simp add: chunk_text_with_spans_eq)

theorem chunk_text_with_spans_returns_no_chunks_witness:
  "chunk_text_with_spans ucd_ru [97, 98, 10, 10, 99, 100] default_SegmentConfig
     = Inl (UnboundLocalError ''p'')
   \<and> chunk_text_with_spans ucd_ru [10, 10, 32] default_SegmentConfig = Inr None"
proof -
  have a: "split_paragraphs ucd_ru [97, 98, 10, 10, 99, 100] = [[97, 98], [99, 100]]"
    by (simp add: split_paragraphs_def PARA_SPLIT_RE_def re_split_def finditer_def match_here_def
        lit_match_def is_space_def no_flags_def strip_def)
  have b: "split_paragraphs ucd_ru [10, 10, 32] = []"
    by (simp add: split_paragraphs_def PARA_SPLIT_RE_def re_split_def finditer_def match_here_def
        lit_match_def is_space_def no_flags_def strip_def)
  show ?thesis
    using chunk_text_with_spans_returns_no_chunks [of ucd_ru "[97, 98, 10, 10, 99, 100]"
        default_SegmentConfig]
      chunk_text_with_spans_returns_no_chunks [of ucd_ru "[10, 10, 32]" default_SegmentConfig]
    by (simp add: a b)
qed

subsection \<open>Texts without a paragraph break\<close>

lemma para_split_no_match:
  "match_here U no_flags PARA_SPLIT_RE pv (replicate n 97) k = None"
  by (cases n) (simp_all add: match_here_def PARA_SPLIT_RE_def lit_match_def no_flags_def)

lemma para_split_search_none:
  "search_from U no_flags PARA_SPLIT_RE pv (replicate n 97) k = None"
  by (induction n arbitrary: pv k) (simp_all add: para_split_no_match [of _ _ 0, simplified]
      para_split_no_match [of _ _ "Suc _", simplified])

lemma split_paragraphs_replicate_a:
  "0 < n \<Longrightarrow> split_paragraphs U (replicate n 97) = [replicate n 97]"
  by (simp add: split_paragraphs_def re_split_def finditer_def para_split_search_none
      strip_replicate_a)

lemma split_paragraphs_empty: "split_paragraphs U [] = []"
  by (simp add: split_paragraphs_def re_split_def finditer_def match_here_def PARA_SPLIT_RE_def
      strip_def)

text \<open>
  C3 (the code departs from the claim). The claim: the empty text yields an empty chunk
  list and an empty span list, and one paragraph longer than \<^verbatim>\<open>max_len\<close> with no
  viable cut point yields exactly one oversized chunk. The code: for the empty text
  \<open>chunk_text_with_spans\<close> returns \<^verbatim>\<open>None\<close>, not a pair of empty lists, and
  \<open>chunk_text\<close> raises TypeError unpacking it; for the paragraph of 1300 letters
  \<^verbatim>\<open>a\<close> (no whitespace, no sentence end) under the default configuration it raises
  UnboundLocalError.
\<close>

theorem chunk_text_degenerate_inputs:
  "chunk_text_with_spans U [] cfg = Inr None
   \<and> chunk_text U [] cfg = Inl (TypeError ''cannot unpack non-iterable NoneType object'')
   \<and> chunk_text_with_spans U (replicate 1300 97) default_SegmentConfig
       = Inl (UnboundLocalError ''p'')"
  by (simp add: chunk_text_with_spans_eq chunk_text_def split_paragraphs_empty
      split_paragraphs_replicate_a)

section \<open>Properties of the Page Mapper\<close>

lemma py_min_Min: "xs \<noteq> [] \<Longrightarrow> py_min xs = Inr (Min (set xs))"
proof (cases xs)
  case Nil
  assume "xs \<noteq> []"
  with Nil show ?thesis by simp
next
  case (Cons x ys)
  have "fold min ys x = Min (set (x # ys))"
    by (rule Min.set_eq_fold [symmetric])
  with Cons show ?thesis by simp
qed

lemma py_max_Max: "xs \<noteq> [] \<Longrightarrow> py_max xs = Inr (Max (set xs))"
proof (cases xs)
  case Nil
  assume "xs \<noteq> []"
  with Nil show ?thesis by simp
next
  case (Cons x ys)
  have "fold max ys x = Max (set (x # ys))"
    by (rule Max.set_eq_fold [symmetric])
  with Cons show ?thesis by simp
qed

lemma map_err_total: "(\<And>x. f x = Inr (g x)) \<Longrightarrow> map_err f xs = Inr (map g xs)"
  by (induction xs) simp_all

text \<open>
  The loop invariant of \<open>build_cutoffs\<close>: the entries appended for the remaining
  pages are their cumulative ranges, shifted by the running total \<open>s\<close>, and their
  page numbers count positions from the length of what is already there.
\<close>

lemma build_cutoffs_eq:
  "build_cutoffs ps s acc =
     acc @ map (\<lambda>i. (s + (\<Sum>p \<leftarrow> take i ps. dict_get p ''chars'' 0),
                      s + (\<Sum>p \<leftarrow> take (Suc i) ps. dict_get p ''chars'' 0),
                      page_number (ps ! i) (length acc + i))) [0..<length ps]"
proof (induction ps arbitrary: s acc)
  case Nil
  show ?case by simp
next
  case (Cons p ps)
  have up: "[0..<length (p # ps)] = 0 # map Suc [0..<length ps]"
    by (simp add: upt_conv_Cons map_Suc_upt del: upt_Suc)
  show ?case
    unfolding up
    by (simp add: Cons.IH Let_def o_def add.assoc)
qed

lemma build_cutoffs_pages:
  "build_cutoffs pm 0 [] =
     map (\<lambda>i. (page_start pm i, page_end pm i, page_number (pm ! i) i)) [0..<length pm]"
  by (simp add: build_cutoffs_eq page_start_def page_end_def)

lemma pages_hit_indices:
  "pages_hit (build_cutoffs pm 0 []) a b =
     map (\<lambda>i. page_number (pm ! i) i)
       (filter (\<lambda>i. \<not> (page_end pm i \<le> a \<or> page_start pm i \<ge> b)) [0..<length pm])"
  by (simp add: build_cutoffs_pages pages_hit_def filter_map o_def)

lemma set_pages_hit:
  "set (pages_hit (build_cutoffs pm 0 []) (fst sp) (snd sp)) = overlapping_pages pm sp"
  unfolding pages_hit_indices overlapping_pages_def
  by auto

lemma page_range_refines: "page_range (build_cutoffs pm 0 []) sp = Inr (page_range_spec pm sp)"
proof (cases "pages_hit (build_cutoffs pm 0 []) (fst sp) (snd sp) = []")
  case True
  then have "overlapping_pages pm sp = {}"
    using set_pages_hit [of pm sp] by simp
  with True show ?thesis
    by (simp add: page_range_def page_range_spec_def)
next
  case False
  then have "overlapping_pages pm sp \<noteq> {}"
    using set_pages_hit [of pm sp] by auto
  with False show ?thesis
    by (simp add: page_range_def page_range_spec_def py_min_Min py_max_Max set_pages_hit)
qed

lemma overlapping_pages_Nil: "overlapping_pages [] sp = {}"
  by (simp add: overlapping_pages_def)

lemma approximate_pages_refines:
  "approximate_pages pm spans = Inr (map (page_range_spec pm) spans)"
proof (cases "pm = []")
  case True
  then show ?thesis
    by (simp add: approximate_pages_def page_range_spec_def overlapping_pages_Nil)
next
  case False
  then show ?thesis
    by (simp add: approximate_pages_def map_err_total [OF page_range_refines])
qed

lemma scenario5_run:
  "approximate_pages scenario5_pages [(90, 120)] = Inr [(Some 1, Some 2)]"
  by (simp add: approximate_pages_def scenario5_pages_def page_range_def pages_hit_def
      page_number_def dict_get_def)

text \<open>
  C9. For every \<^verbatim>\<open>pages_meta\<close> and \<^verbatim>\<open>spans\<close>, \<open>approximate_pages\<close> returns, for each
  span in order, the least and the greatest page number among the pages whose cumulative
  character range overlaps the span (a page's range runs from the sum of the \<^verbatim>\<open>chars\<close> of the
  pages before it to that sum plus its own; overlap is
  \<^verbatim>\<open>not (page_end <= span_start or page_start >= span_end)\<close>), and \<^verbatim>\<open>(None, None)\<close> when
  \<^verbatim>\<open>pages_meta\<close> is empty or no page overlaps. On two pages of 100 and 50 characters the
  span \<^verbatim>\<open>(90, 120)\<close> is mapped to pages 1 to 2.
\<close>

theorem approximate_pages_overlap_ranges:
  "approximate_pages pm spans = Inr (map (page_range_spec pm) spans)
   \<and> approximate_pages [] spans = Inr (map (\<lambda>_. (None, None)) spans)
   \<and> approximate_pages scenario5_pages [(90, 120)] = Inr [(Some 1, Some 2)]"
proof -
  have "approximate_pages [] spans = Inr (map (\<lambda>_. (None, None)) spans)"
    by (simp add: approximate_pages_def)
  then show ?thesis
    using approximate_pages_refines [of pm spans] scenario5_run by simp
qed

theorem approximate_pages_overlap_ranges_witness:
  "page_range_spec scenario5_pages (90, 120) = (Some 1, Some 2)"
proof -
  note t = approximate_pages_overlap_ranges [of scenario5_pages "[(90, 120)]"]
  from t have a: "approximate_pages scenario5_pages [(90, 120)]
      = Inr (map (page_range_spec scenario5_pages) [(90, 120)])"
    by (rule conjunct1)
  from t have b: "approximate_pages scenario5_pages [(90, 120)] = Inr [(Some 1, Some 2)]"
    by (elim conjE)
  from a b have "Inr (map (page_range_spec scenario5_pages) [(90, 120)])
      = (Inr [(Some 1, Some 2)] :: error + (int option \<times> int option) list)"
    by (rule trans [OF sym])
  then show ?thesis by simp
qed

subsection \<open>Descriptors with values of any type\<close>

text \<open>On descriptors with integer entries the two models are one function.\<close>

lemma py_int_as_untyped: "py_int (py_get (as_untyped p) k (PyInt d)) = Inr (dict_get p k d)"
  by (cases "p k") (simp_all add: py_get_def as_untyped_def dict_get_def)

lemma build_cutoffs_as_untyped:
  "build_cutoffs_untyped (map as_untyped ps) s acc = Inr (build_cutoffs ps s acc)"
  by (induction ps arbitrary: s acc) (simp_all add: py_int_as_untyped Let_def page_number_def)

lemma approximate_pages_as_untyped:
  "approximate_pages_untyped (map as_untyped pm) spans = approximate_pages pm spans"
  by (simp add: approximate_pages_untyped_def approximate_pages_def build_cutoffs_as_untyped)



















section \<open>Properties of the Anchor Extractor\<close>

lemma map_err_all_fail:
  "(\<And>x. f x = Inl e) \<Longrightarrow> map_err f xs = (if xs = [] then Inr [] else Inl e)"
  by (cases xs) simp_all

lemma anchors_for_section:
  "anchors_for U text ''section'' F pat = Inr (plain_anchors U text ''section'' 1 F pat)"
  unfolding anchors_for_def plain_anchors_def
  by (rule map_err_total) (simp add: mk_anchor_def)

lemma anchors_for_appendix:
  "anchors_for U text ''appendix'' F pat = Inr (plain_anchors U text ''appendix'' 1 F pat)"
  unfolding anchors_for_def plain_anchors_def
  by (rule map_err_total) (simp add: mk_anchor_def)

lemma anchors_for_table:
  "anchors_for U text ''table'' F pat = Inr (plain_anchors U text ''table'' 99 F pat)"
  unfolding anchors_for_def plain_anchors_def
  by (rule map_err_total) (simp add: mk_anchor_def)

lemma anchors_for_figure:
  "anchors_for U text ''figure'' F pat = Inr (plain_anchors U text ''figure'' 99 F pat)"
  unfolding anchors_for_def plain_anchors_def
  by (rule map_err_total) (simp add: mk_anchor_def)

lemma anchors_for_clause:
  "anchors_for U text ''clause'' F pat =
     (if finditer U F pat text = [] then Inr [] else Inl (NameError ''_dot_depth''))"
  unfolding anchors_for_def
  by (rule map_err_all_fail) (simp add: mk_anchor_def)

lemma numtitle_anchors_eq:
  "numtitle_anchors U text =
     (if finditer U flags_M RE_NUM_TITLE text = [] then Inr []
      else Inl (IndexError ''no such group''))"
  unfolding numtitle_anchors_def
  by (rule map_err_all_fail) simp

lemma find_anchors_eq:
  "find_anchors U text =
     (if finditer U flags_IM RE_CLAUSE text \<noteq> [] then Inl (NameError ''_dot_depth'')
      else if finditer U flags_M RE_NUM_TITLE text \<noteq> [] then Inl (IndexError ''no such group'')
      else Inr (finish_anchors text
                  (plain_anchors U text ''section'' 1 flags_IM RE_SECTION
                   @ plain_anchors U text ''appendix'' 1 flags_IM RE_APPENDIX
                   @ plain_anchors U text ''table'' 99 flags_IM RE_TABLE
                   @ plain_anchors U text ''figure'' 99 flags_IM RE_FIG)))"
  by (simp add: find_anchors_def anchors_for_section anchors_for_appendix anchors_for_table
      anchors_for_figure anchors_for_clause numtitle_anchors_eq)

subsection \<open>Order and chaining of a returned list\<close>

lemma starts_set_ends: "map a_start (set_ends n xs) = map a_start xs"
  by (induction n xs rule: set_ends.induct) simp_all

lemma chained_set_ends: "chained n (set_ends n xs)"
proof (induction n xs rule: set_ends.induct)
  case (3 n a b rest)
  then show ?case by (cases rest) simp_all
qed simp_all

lemma dedup_loop_sorted:
  "sorted (map a_start (dedup @ xs)) \<Longrightarrow> sorted (map a_start (dedup_loop xs dedup))"
proof (induction xs arbitrary: dedup)
  case Nil
  then show ?case by simp
next
  case (Cons a xs)
  show ?case
  proof (cases "dedup = []")
    case True
    with Cons.prems have "sorted (map a_start ([a] @ xs))" by simp
    from Cons.IH [OF this] True show ?thesis by simp
  next
    case False
    then obtain ys y where d: "dedup = ys @ [y]"
      by (metis append_butlast_last_id)
    from Cons.prems d have s: "sorted (map a_start (ys @ [y] @ [a] @ xs))" by simp
    have keep: "sorted (map a_start ((ys @ [y, a]) @ xs))" using s by simp
    have drop_a: "sorted (map a_start ((ys @ [y]) @ xs))"
      using s by (auto simp: sorted_append)
    have swap: "sorted (map a_start ((ys @ [a]) @ xs))"
      using s by (auto simp: sorted_append)
    from Cons.IH [OF keep] Cons.IH [OF drop_a] Cons.IH [OF swap] d
    show ?thesis by (simp add: butlast_append)
  qed
qed

lemma finish_anchors_sorted: "sorted (map a_start (finish_anchors text anchors))"
proof -
  have "sorted (map a_start ([] @ set_ends (int (length text)) (sort_key a_start anchors)))"
    by (simp add: starts_set_ends)
  from dedup_loop_sorted [OF this] show ?thesis
    by (simp add: finish_anchors_def starts_set_ends)
qed

lemma finish_anchors_chained: "chained (int (length text)) (finish_anchors text anchors)"
  by (simp add: finish_anchors_def chained_set_ends)

lemma find_anchors_sorted_chained:
  "find_anchors U text = Inr anchors \<Longrightarrow>
     sorted (map a_start anchors) \<and> chained (int (length text)) anchors"
  by (auto simp: find_anchors_eq finish_anchors_sorted finish_anchors_chained split: if_splits)

text \<open>
  Scenario 3 of the specification, a text with two section headings and neither clause
  nor numbered title: the code returns the two anchors, and they are well formed.
\<close>

lemma scenario3_sections:
  "plain_anchors ucd_ru scenario3_text ''section'' 1 flags_IM RE_SECTION
     = map (\<lambda>a. a\<lparr>a_end := 1\<rparr>) scenario3_anchors"
  by (simp add: scenario3_text_def scenario3_anchors_def plain_anchors_def group_text_def
      strip_def RE_SECTION_def title_tail_def regex_eval)

lemma scenario3_others:
  "finditer ucd_ru flags_IM RE_CLAUSE scenario3_text = []"
  "finditer ucd_ru flags_M RE_NUM_TITLE scenario3_text = []"
  "plain_anchors ucd_ru scenario3_text ''appendix'' 1 flags_IM RE_APPENDIX = []"
  "plain_anchors ucd_ru scenario3_text ''table'' 99 flags_IM RE_TABLE = []"
  "plain_anchors ucd_ru scenario3_text ''figure'' 99 flags_IM RE_FIG = []"
  by (simp_all add: scenario3_text_def plain_anchors_def RE_CLAUSE_def RE_NUM_TITLE_def
      RE_APPENDIX_def RE_TABLE_def RE_FIG_def title_tail_def regex_eval)

lemma find_anchors_scenario3:
  "find_anchors ucd_ru scenario3_text = Inr scenario3_anchors"
  "anchors_wellformed scenario3_text scenario3_anchors"
proof -
  have len: "length scenario3_text = 47" by (simp add: scenario3_text_def)
  show "find_anchors ucd_ru scenario3_text = Inr scenario3_anchors"
    by (simp add: find_anchors_eq scenario3_sections scenario3_others finish_anchors_def len
        scenario3_anchors_def)
  show "anchors_wellformed scenario3_text scenario3_anchors"
    by (simp add: anchors_wellformed_def len scenario3_anchors_def)
qed

text \<open>
  C7 (the code departs from the claim). The claim: for every text the list returned by
  \<open>find_anchors\<close> is ordered by start, each end is the next start and the last end
  the length of the text, every start is before its end, and no two anchors share start
  and id. The code returns no list for a text with a clause heading or a bare numbered
  title: the first match of \<open>RE_CLAUSE\<close> raises NameError in \<open>mk_anchor\<close>
  (\<^verbatim>\<open>_dot_depth\<close> is not defined), and otherwise the first match of \<open>RE_NUM_TITLE\<close>
  raises IndexError (the pattern has no group \<^verbatim>\<open>kind\<close>). Only a text with neither gets
  its section, appendix, table and figure anchors.
\<close>

theorem find_anchors_raises_on_clauses:
  "find_anchors U text =
     (if finditer U flags_IM RE_CLAUSE text \<noteq> [] then Inl (NameError ''_dot_depth'')
      else if finditer U flags_M RE_NUM_TITLE text \<noteq> [] then Inl (IndexError ''no such group'')
      else Inr (finish_anchors text
                  (plain_anchors U text ''section'' 1 flags_IM RE_SECTION
                   @ plain_anchors U text ''appendix'' 1 flags_IM RE_APPENDIX
                   @ plain_anchors U text ''table'' 99 flags_IM RE_TABLE
                   @ plain_anchors U text ''figure'' 99 flags_IM RE_FIG)))"
  by (rule find_anchors_eq)

text \<open>
  The texts \<^verbatim>\<open>Punkt 1.2 Abc\<close> and \<^verbatim>\<open>1.2 Obshchie\<close> (in Russian letters): a clause
  heading and a numbered title.
\<close>

theorem find_anchors_raises_on_clauses_witness:
  "find_anchors ucd_ru [1055, 1091, 1085, 1082, 1090, 32, 49, 46, 50, 32, 65, 98, 99]
     = Inl (NameError ''_dot_depth'')
   \<and> find_anchors ucd_ru [49, 46, 50, 32, 1054, 1073, 1097, 1080, 1077]
     = Inl (IndexError ''no such group'')"
proof -
  have c: "finditer ucd_ru flags_IM RE_CLAUSE
             [1055, 1091, 1085, 1082, 1090, 32, 49, 46, 50, 32, 65, 98, 99] \<noteq> []"
    by (simp add: RE_CLAUSE_def title_tail_def regex_eval)
  have n1: "finditer ucd_ru flags_IM RE_CLAUSE [49, 46, 50, 32, 1054, 1073, 1097, 1080, 1077] = []"
    by (simp add: RE_CLAUSE_def title_tail_def regex_eval)
  have n2: "finditer ucd_ru flags_M RE_NUM_TITLE [49, 46, 50, 32, 1054, 1073, 1097, 1080, 1077]
              \<noteq> []"
    by (simp add: RE_NUM_TITLE_def regex_eval)
  show ?thesis
    using find_anchors_raises_on_clauses
            [of ucd_ru "[1055, 1091, 1085, 1082, 1090, 32, 49, 46, 50, 32, 65, 98, 99]"]
          find_anchors_raises_on_clauses
            [of ucd_ru "[49, 46, 50, 32, 1054, 1073, 1097, 1080, 1077]"]
    by (simp add: c n1 n2)
qed

subsection \<open>The best anchor and the labels\<close>

lemma best_anchor_none_before:
  "list_all (\<lambda>a. pos < a_start a) anchors \<Longrightarrow> best_anchor_for_pos anchors (PInt pos) = Inr None"
  by (cases anchors) (simp_all add: best_anchor_for_pos_def)

lemma annotate_loop_no_anchors:
  "annotate_loop [] chs cur labels = Inr (labels @ map (\<lambda>_. None) chs)"
  by (induction chs arbitrary: cur labels) (simp_all add: best_anchor_for_pos_def)

lemma annotate_loop_anchors:
  "anchors \<noteq> [] \<Longrightarrow>
     annotate_loop anchors chs cur labels =
       (if chs = [] then Inr labels
        else Inl (TypeError ''<= not supported between int and function''))"
  by (cases chs) (simp_all add: best_anchor_for_pos_def)

lemma annotate_eq:
  "annotate_chunks_with_sections U text chs =
     (case find_anchors U text of
        Inl e \<Rightarrow> Inl e
      | Inr anchors \<Rightarrow>
          if anchors = [] then Inr (map (\<lambda>_. None) chs)
          else if chs = [] then Inr []
          else Inl (TypeError ''<= not supported between int and function''))"
  by (simp add: annotate_chunks_with_sections_def annotate_loop_no_anchors annotate_loop_anchors
      split: sum.splits)

text \<open>
  C8 (the code departs from the claim). The claim: the best-anchor lookup returns no
  anchor when no anchor starts at or before the position, and never raises; so a chunk
  whose span starts before every anchor gets the label \<^verbatim>\<open>None\<close> from
  \<open>annotate_chunks_with_sections\<close>. The code: the lookup does return \<open>None\<close> when
  every anchor starts after the position, but it raises NameError (\<^verbatim>\<open>bext\<close>) for one
  section anchor at 0 and position 0; and \<open>annotate_chunks_with_sections\<close> looks up
  the function object \<^verbatim>\<open>current_process\<close> instead of an offset, so with any anchor
  and any chunk it raises TypeError: on the text \<^verbatim>\<open>ab\<close>, line feed, \<^verbatim>\<open>Razdel 1\<close>
  the chunk \<^verbatim>\<open>ab\<close> starts before the only anchor (start 3) and gets no label.
\<close>

theorem best_anchor_raises:
  "(list_all (\<lambda>a. pos < a_start a) anchors \<longrightarrow> best_anchor_for_pos anchors (PInt pos) = Inr None)
   \<and> best_anchor_for_pos
        [\<lparr>a_kind = ''section'', a_id = [49], a_title = [], a_start = 0, a_end = 8, a_level = 1,
          a_raw_kind = None\<rparr>] (PInt 0) = Inl (NameError ''bext'')
   \<and> find_anchors ucd_ru [97, 98, 10, 1056, 1072, 1079, 1076, 1077, 1083, 32, 49]
        = Inr [\<lparr>a_kind = ''section'', a_id = [49], a_title = [], a_start = 3, a_end = 11,
                a_level = 1, a_raw_kind = Some [1056, 1072, 1079, 1076, 1077, 1083]\<rparr>]
   \<and> annotate_chunks_with_sections ucd_ru
        [97, 98, 10, 1056, 1072, 1079, 1076, 1077, 1083, 32, 49] [[97, 98]]
        = Inl (TypeError ''<= not supported between int and function'')"
proof -
  let ?t = "[97, 98, 10, 1056, 1072, 1079, 1076, 1077, 1083, 32, 49] :: ustr"
  have cl: "finditer ucd_ru flags_IM RE_CLAUSE ?t = []"
    by (simp add: RE_CLAUSE_def title_tail_def regex_eval)
  have nt: "finditer ucd_ru flags_M RE_NUM_TITLE ?t = []"
    by (simp add: RE_NUM_TITLE_def regex_eval)
  have se: "plain_anchors ucd_ru ?t ''section'' 1 flags_IM RE_SECTION
      = [\<lparr>a_kind = ''section'', a_id = [49], a_title = [], a_start = 3, a_end = 1,
           a_level = 1, a_raw_kind = Some [1056, 1072, 1079, 1076, 1077, 1083]\<rparr>]"
    by (simp add: plain_anchors_def group_text_def strip_def RE_SECTION_def title_tail_def
        regex_eval)
  have ap: "plain_anchors ucd_ru ?t ''appendix'' 1 flags_IM RE_APPENDIX = []"
    by (simp add: plain_anchors_def RE_APPENDIX_def title_tail_def regex_eval)
  have ta: "plain_anchors ucd_ru ?t ''table'' 99 flags_IM RE_TABLE = []"
    by (simp add: plain_anchors_def RE_TABLE_def regex_eval)
  have fi: "plain_anchors ucd_ru ?t ''figure'' 99 flags_IM RE_FIG = []"
    by (simp add: plain_anchors_def RE_FIG_def regex_eval)
  have fa: "find_anchors ucd_ru ?t
      = Inr [\<lparr>a_kind = ''section'', a_id = [49], a_title = [], a_start = 3, a_end = 11,
              a_level = 1, a_raw_kind = Some [1056, 1072, 1079, 1076, 1077, 1083]\<rparr>]"
    by (simp add: find_anchors_eq cl nt se ap ta fi finish_anchors_def)
  have an: "annotate_chunks_with_sections ucd_ru ?t [[97, 98]]
      = Inl (TypeError ''<= not supported between int and function'')"
    by (simp add: annotate_eq fa)
  have bx: "best_anchor_for_pos
        [\<lparr>a_kind = ''section'', a_id = [49], a_title = [], a_start = 0, a_end = 8, a_level = 1,
          a_raw_kind = None\<rparr>] (PInt 0) = Inl (NameError ''bext'')"
    by (simp add: best_anchor_for_pos_def)
  from best_anchor_none_before fa an bx show ?thesis by blast
qed

theorem best_anchor_raises_witness:
  "list_all (\<lambda>a. 0 < a_start a)
     [\<lparr>a_kind = ''section'', a_id = [49], a_title = [], a_start = 3, a_end = 11,
       a_level = 1, a_raw_kind = None\<rparr>]
   \<and> best_anchor_for_pos
       [\<lparr>a_kind = ''section'', a_id = [49], a_title = [], a_start = 3, a_end = 11,
         a_level = 1, a_raw_kind = None\<rparr>] (PInt 0) = Inr None"
  using best_anchor_raises [of 0
      "[\<lparr>a_kind = ''section'', a_id = [49], a_title = [], a_start = 3, a_end = 11,
         a_level = 1, a_raw_kind = None\<rparr>]"]
  by simp

section \<open>Properties of the Normalizer\<close>

lemma clean_raises_with_bullets:
  "normalize_bullets cfg \<Longrightarrow> clean U text (Some cfg) = Inl (AttributeError ''bullet_symbol'')"
  by (simp add: clean_def effective_config_def get_bullet_symbol_def Let_def)

lemma clean_raises_by_default:
  "clean U text None = Inl (AttributeError ''bullet_symbol'')"
  by (simp add: clean_def effective_config_def get_bullet_symbol_def default_CleanConfig_def Let_def)

text \<open>
  C1 (the code departs from the claim). The claim: for every input string and every
  \<open>CleanConfig\<close>, the default included, \<open>clean\<close> returns a string and no exception
  escapes it. The code: with no configuration, with the default one, and with any
  configuration whose \<^verbatim>\<open>normalize_bullets\<close> is set, \<open>clean\<close> raises AttributeError
  on every input, reading \<^verbatim>\<open>cfg.bullet_symbol\<close> where the field is
  \<^verbatim>\<open>bullet_sumbol\<close>.
\<close>

theorem clean_raises_attribute_error:
  "clean U text None = Inl (AttributeError ''bullet_symbol'')
   \<and> clean U text (Some default_CleanConfig) = Inl (AttributeError ''bullet_symbol'')
   \<and> clean U text (Some (cfg\<lparr>normalize_bullets := True\<rparr>)) = Inl (AttributeError ''bullet_symbol'')"
  by (simp add: clean_raises_by_default clean_raises_with_bullets default_CleanConfig_def)

theorem clean_raises_attribute_error_witness:
  "clean ucd_ru [] None = Inl (AttributeError ''bullet_symbol'')
   \<and> clean ucd_ru [97, 98, 99] (Some default_CleanConfig) = Inl (AttributeError ''bullet_symbol'')"
  using clean_raises_attribute_error [of ucd_ru "[]"]
    clean_raises_attribute_error [of ucd_ru "[97, 98, 99]"]
  by simp

subsection \<open>Scenario 1\<close>

text \<open>
  Scenario 1 with \<^verbatim>\<open>normalize_bullets\<close> switched off, the one change that lets
  \<open>clean\<close> run to its end: stage by stage.
\<close>

lemma s1_unicode: "normalize_unicode ucd_ru scenario1_text = scenario1_text"
  by (simp add: scenario1_text_def normalize_unicode_def RE_SOFT_HYPHEN_def regex_eval)

lemma s1_control: "strip_control_chars ucd_ru scenario1_text = scenario1_text"
  by (simp add: scenario1_text_def strip_control_chars_def ucd_ru_def)

lemma s1_hyphenation: "fix_hyphenation_text ucd_ru scenario1_text = scenario1_text"
  by (simp add: scenario1_text_def fix_hyphenation_text_def hyphen_pass_def
      RE_HYPHEN_NEWLINE_def hyphens_def regex_eval numeral_3_eq_3)

lemma s1_dashes: "normalize_dashes_text ucd_ru scenario1_text = scenario1_text"
  by (simp add: scenario1_text_def normalize_dashes_text_def RE_ANY_DASH_def regex_eval)

lemma s1_lines:
  "splitlines scenario1_text = [page_line, [], scenario1_expected, [], page_line]"
  by (simp add: scenario1_text_def page_line_def scenario1_expected_def splitlines_def
      is_linebreak_def)

lemma s1_strip: "strip page_line = page_line" "strip scenario1_expected = scenario1_expected"
  by (simp_all add: page_line_def scenario1_expected_def strip_def is_space_def)

lemma s1_page_word: "matches ucd_ru flags_I RE_PAGE_WORD page_line"
  by (simp add: page_line_def matches_def RE_PAGE_WORD_def regex_eval)

lemma s1_page_line_dropped:
  "remove_page_numbers cfg \<Longrightarrow> dropped ucd_ru cfg freq page_line"
  by (simp add: dropped_def s1_page_word)

lemma s1_body_no_match:
  "\<not> matches ucd_ru no_flags RE_PAGE_NUM_PURE scenario1_expected"
  "\<not> matches ucd_ru flags_I RE_PAGE_WORD scenario1_expected"
  "\<not> matches ucd_ru no_flags RE_DATE_LINE scenario1_expected"
  "\<not> matches ucd_ru flags_I RE_TABLE_CONT scenario1_expected"
  "\<not> matches ucd_ru flags_I RE_TABLE_HEAD scenario1_expected"
  "\<not> matches ucd_ru flags_I RE_FIG_HEAD scenario1_expected"
  by (simp_all add: scenario1_expected_def matches_def RE_PAGE_NUM_PURE_def dash_opt_def
      RE_PAGE_WORD_def RE_DATE_LINE_def RE_TABLE_CONT_def RE_TABLE_HEAD_def RE_FIG_HEAD_def
      number_tail_def regex_eval)

lemma s1_body_no_hint: "\<not> found ucd_ru flags_I RE_HEADER_HINT scenario1_expected"
  by (simp add: scenario1_expected_def found_def RE_HEADER_HINT_def kw_standard_def regex_eval)

lemma s1_body_kept:
  "extra_header_footer_regexes cfg = [] \<Longrightarrow> \<not> dropped ucd_ru cfg freq scenario1_expected"
  by (simp add: dropped_def s1_body_no_match s1_body_no_hint extra_compiled_def Let_def)

lemma s1_drop:
  "drop_header_footer_lines ucd_ru [page_line, [], scenario1_expected, [], page_line]
     (scenario1_config\<lparr>normalize_bullets := False\<rparr>)
   = [[], scenario1_expected, []]"
proof -
  let ?cfg = "scenario1_config\<lparr>normalize_bullets := False\<rparr>"
  have rp: "remove_page_numbers ?cfg" and ex: "extra_header_footer_regexes ?cfg = []"
    by (simp_all add: scenario1_config_def default_CleanConfig_def)
  have ne: "page_line \<noteq> []" "scenario1_expected \<noteq> []"
    by (simp_all add: page_line_def scenario1_expected_def)
  have e: "strip [] = []" by (simp add: strip_def)
  show ?thesis
    unfolding drop_header_footer_lines_def Let_def
    by (simp add: s1_strip e ne s1_page_line_dropped [OF rp] s1_body_kept [OF ex])
qed

lemma s1_collapse:
  "collapse_spaces_and_newlines ucd_ru (join [10] [[], scenario1_expected, []]) True 2
     = scenario1_expected"
  by (simp add: scenario1_expected_def collapse_spaces_and_newlines_def strip_def regex_eval)

lemma scenario1_without_bullets:
  "clean ucd_ru scenario1_text (Some (scenario1_config\<lparr>normalize_bullets := False\<rparr>))
     = Inr scenario1_expected"
proof -
  let ?cfg = "scenario1_config\<lparr>normalize_bullets := False\<rparr>"
  have sel: "fix_hyphenation ?cfg" "normalize_dashes ?cfg" "\<not> normalize_bullets ?cfg"
      "\<not> soften_inline_newlines ?cfg" "collapse_spaces ?cfg" "max_consecutive_newlines ?cfg = 2"
    by (simp_all add: scenario1_config_def default_CleanConfig_def)
  show ?thesis
    unfolding clean_def effective_config_def Let_def option.case
    by (simp only: sel s1_unicode s1_control s1_hyphenation s1_dashes s1_lines s1_drop
        s1_collapse if_True if_False sum.case)
qed

text \<open>
  C5 (the code departs from the claim). The claim: \<open>clean\<close> on the text of scenario 1
  with \<^verbatim>\<open>header_min_repeats=2\<close> and the other fields at their defaults drops both page
  lines and returns the middle line. The code raises AttributeError there
  (\<^verbatim>\<open>normalize_bullets\<close> is on by default, and \<^verbatim>\<open>cfg.bullet_symbol\<close> does not exist);
  with \<^verbatim>\<open>normalize_bullets\<close> off it returns exactly the text the claim names.
\<close>

theorem clean_scenario1_raises:
  "clean U scenario1_text (Some scenario1_config) = Inl (AttributeError ''bullet_symbol'')
   \<and> clean ucd_ru scenario1_text (Some (scenario1_config\<lparr>normalize_bullets := False\<rparr>))
       = Inr scenario1_expected"
proof -
  have "normalize_bullets scenario1_config"
    by (simp add: scenario1_config_def default_CleanConfig_def)
  then show ?thesis
    by (simp add: clean_raises_with_bullets scenario1_without_bullets)
qed

subsection \<open>The last stage, and a second pass\<close>

text \<open>
  The last stage of \<open>clean\<close>, the collapse of whitespace, changes nothing when it is
  applied again to its own result.
\<close>

lemma last_dropWhile: "dropWhile P xs \<noteq> [] \<Longrightarrow> last (dropWhile P xs) = last xs"
  by (induction xs) (auto split: if_splits)

lemma strip_Nil: "strip [] = []"
  by (simp add: strip_def)

lemma strip_ends:
  assumes "strip s \<noteq> []"
  shows "\<not> is_space (hd (strip s))" and "\<not> is_space (last (strip s))"
proof -
  let ?d = "dropWhile is_space s"
  let ?e = "dropWhile is_space (rev ?d)"
  have st: "strip s = rev ?e" by (simp only: strip_def)
  from assms have e: "?e \<noteq> []"
    unfolding st by (simp only: rev_is_Nil_conv not_False_eq_True)
  have d: "?d \<noteq> []"
  proof
    assume "?d = []"
    then have "?e = []" by (simp only: rev.simps dropWhile.simps)
    with e show False by contradiction
  qed
  have rd: "rev ?d \<noteq> []" using d by (simp only: rev_is_Nil_conv not_False_eq_True)
  have "last ?e = last (rev ?d)" using e by (rule last_dropWhile)
  also have "\<dots> = hd ?d" using d by (simp only: last_rev)
  finally have l: "last ?e = hd ?d" .
  have "hd (rev ?e) = last ?e" using e by (simp only: hd_rev)
  with l have "hd (strip s) = hd ?d" by (simp only: st)
  moreover have "\<not> is_space (hd ?d)" using d by (rule hd_dropWhile)
  ultimately show "\<not> is_space (hd (strip s))" by simp
  have h: "\<not> is_space (hd ?e)" using e by (rule hd_dropWhile)
  have "last (rev ?e) = hd ?e" using e by (simp only: last_rev)
  with h have "\<not> is_space (last (rev ?e))" by simp
  then show "\<not> is_space (last (strip s))" unfolding st .
qed

lemma strip_idem: "strip (strip s) = strip s"
proof (cases "strip s = []")
  case True
  then show ?thesis by (simp add: strip_Nil)
next
  case False
  let ?t = "strip s"
  have rt: "rev ?t \<noteq> []" using False by (simp only: rev_is_Nil_conv not_False_eq_True)
  have front: "dropWhile is_space ?t = ?t"
    using strip_ends(1) [OF False] by (simp only: dropWhile_eq_self_iff simp_thms)
  note tail = strip_ends(2) [OF False]
  have "hd (rev ?t) = last ?t" using False by (simp only: hd_rev)
  then have "\<not> is_space (hd (rev ?t))" using tail by simp
  then have rear: "dropWhile is_space (rev ?t) = rev ?t"
    by (simp only: dropWhile_eq_self_iff simp_thms)
  have "strip ?t = rev (dropWhile is_space (rev (dropWhile is_space ?t)))"
    by (simp only: strip_def)
  also have "\<dots> = rev (rev ?t)" by (simp only: front rear)
  also have "\<dots> = ?t" by (simp only: rev_rev_ident)
  finally show ?thesis .
qed

text \<open>What squeezing leaves behind.\<close>

lemma run_replicate_app: "run a (replicate c a @ t) = c + run a t"
  by (induction c) simp_all

lemma run_head: "t = [] \<or> hd t \<noteq> a \<Longrightarrow> run a t = 0"
  by (cases t) auto

lemma drop_run_head: "drop (run a r) r = [] \<or> hd (drop (run a r) r) \<noteq> a"
  by (induction r) auto

lemma squeeze_head:
  "0 < lo \<Longrightarrow> r = [] \<or> hd r \<noteq> a \<Longrightarrow>
     squeeze a lo rep r = [] \<or> hd (squeeze a lo rep r) \<noteq> a"
  by (cases r) auto

lemma run_squeeze_short:
  "0 < lo \<Longrightarrow> run a xs < lo \<Longrightarrow> run a (squeeze a lo rep xs) = run a xs"
  by (induction xs) (auto split: if_splits)

lemma find_run_replicate_app:
  "c < lo \<Longrightarrow> t = [] \<or> hd t \<noteq> a \<Longrightarrow> find_run a lo t = None \<Longrightarrow>
     find_run a lo (replicate c a @ t) = None"
proof (induction c)
  case 0
  then show ?case by simp
next
  case (Suc c)
  have "run a (a # replicate c a @ t) = Suc c"
    using run_replicate_app [of a "Suc c" t] run_head [OF Suc.prems(2)] by simp
  with Suc show ?case by (simp del: run_simps)
qed

lemma squeeze_no_long_run:
  "0 < lo \<Longrightarrow> c < lo \<Longrightarrow> find_run a lo (squeeze a lo (replicate c a) r) = None"
proof (induction a lo "replicate c a" r rule: squeeze.induct)
  case (1 a lo)
  show ?case by simp
next
  case (2 a lo x xs)
  show ?case
  proof (cases "lo \<le> run a (x # xs)")
    case True
    let ?t = "drop (run a (x # xs)) (x # xs)"
    have ih: "find_run a lo (squeeze a lo (replicate c a) ?t) = None"
      using 2(1) True 2(3,4) by simp
    have hd: "squeeze a lo (replicate c a) ?t = [] \<or> hd (squeeze a lo (replicate c a) ?t) \<noteq> a"
      by (rule squeeze_head [OF 2(3) drop_run_head])
    from find_run_replicate_app [OF 2(4) hd ih] True 2(3) show ?thesis
      by (simp del: run_simps)
  next
    case False
    have ih: "find_run a lo (squeeze a lo (replicate c a) xs) = None"
      using 2(2) False 2(3,4) by simp
    have "run a (x # squeeze a lo (replicate c a) xs) = run a (x # xs)"
      using False run_squeeze_short [OF 2(3), of a xs "replicate c a"]
      by (auto split: if_splits)
    with False ih show ?thesis by (simp del: run_simps)
  qed
qed

lemma squeeze_idem:
  "0 < lo \<Longrightarrow> c < lo \<Longrightarrow>
     squeeze a lo (replicate c a) (squeeze a lo (replicate c a) r) = squeeze a lo (replicate c a) r"
  by (rule squeeze_no_run [OF squeeze_no_long_run])

lemma find_run_Cons_None:
  "find_run a lo (x # xs) = None \<longleftrightarrow> \<not> lo \<le> run a (x # xs) \<and> find_run a lo xs = None"
  by (simp del: run_simps)

lemma find_run_drop: "find_run a lo r = None \<Longrightarrow> find_run a lo (drop j r) = None"
proof (induction r arbitrary: j)
  case Nil
  then show ?case by simp
next
  case (Cons x xs)
  then show ?case by (cases j) (simp_all add: find_run_Cons_None del: find_run.simps)
qed

lemma run_take_le: "run a (take m r) \<le> run a r"
proof (induction r arbitrary: m)
  case Nil
  then show ?case by simp
next
  case (Cons x xs)
  then show ?case by (cases m) auto
qed

lemma find_run_take: "0 < lo \<Longrightarrow> find_run a lo r = None \<Longrightarrow> find_run a lo (take m r) = None"
proof (induction r arbitrary: m)
  case Nil
  then show ?case by simp
next
  case (Cons x xs)
  show ?case
  proof (cases m)
    case 0
    then show ?thesis by simp
  next
    case (Suc m')
    from Cons.prems(2) have a: "\<not> lo \<le> run a (x # xs)" and b: "find_run a lo xs = None"
      by (simp_all add: find_run_Cons_None del: find_run.simps)
    have "run a (take (Suc m') (x # xs)) \<le> run a (x # xs)" by (rule run_take_le)
    with a have "\<not> lo \<le> run a (x # take m' xs)" by simp
    with Cons.IH [OF Cons.prems(1) b, of m'] Suc show ?thesis
      by (simp add: find_run_Cons_None del: find_run.simps run_simps)
  qed
qed

lemma strip_take_drop: "\<exists>m k. strip s = take m (drop k s)"
proof -
  let ?d = "dropWhile is_space s"
  have d: "?d = drop (length (takeWhile is_space s)) s"
    by (rule dropWhile_eq_drop)
  have "strip s = rev (drop (length (takeWhile is_space (rev ?d))) (rev ?d))"
    by (simp only: strip_def dropWhile_eq_drop [of is_space "rev ?d"])
  also have "\<dots> = take (length ?d - length (takeWhile is_space (rev ?d))) ?d"
    by (simp add: rev_drop)
  finally show ?thesis using d by metis
qed

lemma find_run_strip: "0 < lo \<Longrightarrow> find_run a lo r = None \<Longrightarrow> find_run a lo (strip r) = None"
proof -
  assume lo: "0 < lo" and n: "find_run a lo r = None"
  obtain m k where s: "strip r = take m (drop k r)" using strip_take_drop by blast
  show ?thesis unfolding s by (rule find_run_take [OF lo find_run_drop [OF n]])
qed

lemma run_other_squeeze:
  "a \<noteq> b \<Longrightarrow> 0 < c \<Longrightarrow> run b (squeeze a lo (replicate c a) xs) = run b xs"
proof (induction a lo "replicate c a" xs rule: squeeze.induct)
  case (1 a lo)
  show ?case by simp
next
  case (2 a lo x xs)
  show ?case
  proof (cases "0 < lo \<and> lo \<le> run a (x # xs)")
    case True
    then have xa: "x = a" by (auto split: if_splits)
    from 2(4) obtain c' where c: "c = Suc c'" by (cases c) auto
    from True xa 2(3) show ?thesis by (simp add: c)
  next
    case False
    with 2(2) [OF False 2(3,4)] show ?thesis by auto
  qed
qed

lemma find_run_other_replicate:
  "a \<noteq> b \<Longrightarrow> 0 < lb \<Longrightarrow> find_run b lb t = None \<Longrightarrow> find_run b lb (replicate c a @ t) = None"
  by (induction c) simp_all

lemma find_run_other_squeeze:
  "a \<noteq> b \<Longrightarrow> 0 < c \<Longrightarrow> 0 < lb \<Longrightarrow> find_run b lb r = None \<Longrightarrow>
     find_run b lb (squeeze a lo (replicate c a) r) = None"
proof (induction a lo "replicate c a" r rule: squeeze.induct)
  case (1 a lo)
  show ?case by simp
next
  case (2 a lo x xs)
  show ?case
  proof (cases "0 < lo \<and> lo \<le> run a (x # xs)")
    case True
    let ?t = "drop (run a (x # xs)) (x # xs)"
    have "find_run b lb ?t = None" by (rule find_run_drop [OF 2(6)])
    from 2(1) [OF True 2(3,4,5) this] have "find_run b lb (squeeze a lo (replicate c a) ?t) = None" .
    from find_run_other_replicate [OF 2(3) 2(5) this] True show ?thesis
      by (simp del: run_simps)
  next
    case False
    from 2(6) have a: "\<not> lb \<le> run b (x # xs)" and b: "find_run b lb xs = None"
      by (simp_all add: find_run_Cons_None del: find_run.simps)
    have r: "run b (x # squeeze a lo (replicate c a) xs) = run b (x # xs)"
      using run_other_squeeze [OF 2(3,4), of lo xs] by simp
    have sq: "squeeze a lo (replicate c a) (x # xs) = x # squeeze a lo (replicate c a) xs"
      by (subst squeeze.simps(2)) (rule if_not_P [OF False])
    from 2(2) [OF False 2(3,4,5) b] a r show ?thesis
      unfolding sq by (simp add: find_run_Cons_None del: find_run.simps run_simps)
  qed
qed

lemma set_squeeze: "set (squeeze a lo rep r) \<subseteq> set r \<union> set rep"
proof (induction a lo rep r rule: squeeze.induct)
  case (1 a lo rep)
  show ?case by simp
next
  case (2 a lo rep x xs)
  show ?case
  proof (cases "0 < lo \<and> lo \<le> run a (x # xs)")
    case True
    have "set (drop (run a (x # xs)) (x # xs)) \<subseteq> set (x # xs)" by (rule set_drop_subset)
    with 2(1) [OF True] True show ?thesis by (auto simp del: run_simps)
  next
    case False
    with 2(2) [OF False] show ?thesis by auto
  qed
qed

lemma set_strip: "set (strip r) \<subseteq> set r"
proof -
  obtain m k where s: "strip r = take m (drop k r)" using strip_take_drop by blast
  show ?thesis unfolding s using set_take_subset set_drop_subset by fastforce
qed


lemma collapse_stages:
  "collapse_spaces_and_newlines U t c n = strip (nl_stage n (sp_stage c t))"
proof -
  have sp: "re_sub U no_flags (Rep (Lit 32) 2 None) (\<lambda>m. [32]) x = squeeze 32 2 [32] x" for x
    by (rule re_sub_rep_lit) simp
  have nl: "n \<ge> 1 \<Longrightarrow> re_sub U no_flags (Rep (Lit 10) (nat (n + 1)) None) (\<lambda>m. replicate (nat n) 10) x
      = squeeze 10 (nat (n + 1)) (replicate (nat n) 10) x" for x
    by (rule re_sub_rep_lit) simp
  show ?thesis
    by (simp add: collapse_spaces_and_newlines_def sp_stage_def nl_stage_def untab_def Let_def sp nl)
qed

lemma no_tab_sp_stage: "9 \<notin> set (sp_stage True t)"
proof -
  have "9 \<notin> set (untab t)" by (auto simp: untab_def)
  with set_squeeze [of 32 2 "[32]" "untab t"] show ?thesis
    by (auto simp: sp_stage_def)
qed

lemma no_tab_nl_stage: "9 \<notin> set t \<Longrightarrow> 9 \<notin> set (nl_stage n t)"
  using set_squeeze [of 10 "nat (n + 1)" "replicate (nat n) 10" t]
  by (auto simp: nl_stage_def)

lemma sp_stage_no_run: "find_run 32 2 (sp_stage True t) = None"
  using squeeze_no_long_run [of 2 1 32 "untab t"] by (simp add: sp_stage_def)

lemma nl_stage_keeps_spaces: "find_run 32 2 t = None \<Longrightarrow> find_run 32 2 (nl_stage n t) = None"
  using find_run_other_squeeze [of 10 32 "nat n" 2 t "nat (n + 1)"]
  by (simp add: nl_stage_def)

lemma nl_stage_no_run: "n \<ge> 1 \<Longrightarrow> find_run 10 (nat (n + 1)) (nl_stage n t) = None"
  using squeeze_no_long_run [of "nat (n + 1)" "nat n" 10 t] by (simp add: nl_stage_def)

lemma collapse_idem:
  "collapse_spaces_and_newlines U (collapse_spaces_and_newlines U t c n) c n
     = collapse_spaces_and_newlines U t c n"
proof -
  let ?out = "strip (nl_stage n (sp_stage c t))"
  have sp: "sp_stage c ?out = ?out"
  proof (cases c)
    case False
    then show ?thesis by (simp add: sp_stage_def)
  next
    case True
    have "9 \<notin> set ?out"
      using no_tab_nl_stage [OF no_tab_sp_stage, of n t] set_strip [of "nl_stage n (sp_stage True t)"]
        True by auto
    then have ut: "untab ?out = ?out"
      unfolding untab_def by (intro map_idI) auto
    have "find_run 32 2 ?out = None"
      using find_run_strip [OF _ nl_stage_keeps_spaces [OF sp_stage_no_run], of n t] True by simp
    then have "squeeze 32 2 [32] ?out = ?out" by (rule squeeze_no_run)
    with ut True show ?thesis by (simp add: sp_stage_def)
  qed
  have nl: "nl_stage n ?out = ?out"
  proof (cases "n \<ge> 1")
    case False
    then show ?thesis by (simp add: nl_stage_def)
  next
    case True
    have "find_run 10 (nat (n + 1)) ?out = None"
      using find_run_strip [OF _ nl_stage_no_run [OF True], of "sp_stage c t"] True by simp
    then have "squeeze 10 (nat (n + 1)) (replicate (nat n) 10) ?out = ?out"
      by (rule squeeze_no_run)
    with True show ?thesis by (simp add: nl_stage_def)
  qed
  show ?thesis
    unfolding collapse_stages sp nl by (rule strip_idem)
qed


lemma collapse_trimmed:
  "strip (collapse_spaces_and_newlines U t c n) = collapse_spaces_and_newlines U t c n"
  unfolding collapse_stages by (rule strip_idem)

lemma clean_last_stage:
  "clean U t config = Inr u \<Longrightarrow>
     collapse_spaces_and_newlines U u (collapse_spaces (effective_config config))
       (max_consecutive_newlines (effective_config config)) = u
     \<and> strip u = u"
  by (auto simp: clean_def Let_def collapse_idem collapse_trimmed split: sum.splits if_splits)

lemmas normalizer_eval =
  clean_def effective_config_def normalize_unicode_def strip_control_chars_def fix_hyphenation_text_def
  hyphen_pass_def normalize_dashes_text_def drop_header_footer_lines_def dropped_def
  matches_def found_def extra_compiled_def collapse_spaces_and_newlines_def
  splitlines_def is_linebreak_def strip_def group_text_def default_CleanConfig_def
  no_bullets_config_def numeral_3_eq_3
  RE_HYPHEN_NEWLINE_def hyphens_def RE_SOFT_HYPHEN_def RE_ANY_DASH_def dash_opt_def
  RE_PAGE_NUM_PURE_def RE_PAGE_WORD_def RE_DATE_LINE_def RE_HEADER_HINT_def kw_standard_def
  number_tail_def RE_TABLE_CONT_def RE_TABLE_HEAD_def RE_FIG_HEAD_def

lemma clean_hyphen_page_first:
  "clean ucd_ru hyphen_page_text (Some no_bullets_config) = Inr [120, 45, 10, 121]"
  by (simp add: hyphen_page_text_def normalizer_eval regex_eval Let_def)

lemma clean_hyphen_page_second:
  "clean ucd_ru [120, 45, 10, 121] (Some no_bullets_config) = Inr [120, 121]"
  by (simp add: normalizer_eval regex_eval Let_def)

text \<open>
  With \<^verbatim>\<open>normalize_bullets\<close> off \<open>clean\<close> runs to its end, and a second pass can
  still change the text: on \<^verbatim>\<open>x-\<close>, line feed, space, \<^verbatim>\<open>5\<close>, line feed, \<^verbatim>\<open>y\<close>
  the first pass keeps the hyphen, because the page number line still stands between
  the two halves of the word when the hyphenation stage runs, and drops that line
  afterwards; the second pass then joins the word.
\<close>

lemma clean_twice_hyphen_page:
  "clean_twice ucd_ru hyphen_page_text (Some no_bullets_config) = Inr [120, 121]"
  by (simp add: clean_twice_def clean_hyphen_page_first clean_hyphen_page_second)

text \<open>
  C4 (the code departs from the claim). The claim: under the default \<open>CleanConfig\<close>,
  \<^verbatim>\<open>clean(clean(t)) == clean(t)\<close> for every input string \<open>t\<close>. The code: under the
  default configuration, passed as \<^verbatim>\<open>None\<close> or as \<^verbatim>\<open>CleanConfig()\<close>, the first call
  of \<open>clean\<close> raises AttributeError on every \<open>t\<close>, reading \<^verbatim>\<open>cfg.bullet_symbol\<close>
  where the field is \<^verbatim>\<open>bullet_sumbol\<close>; \<^verbatim>\<open>clean(clean(t))\<close> raises the same error
  from its inner call. Neither side of the equation has a value, for any \<open>t\<close>.
\<close>

theorem clean_twice_raises_by_default:
  "clean U t None = Inl (AttributeError ''bullet_symbol'')
   \<and> clean_twice U t None = Inl (AttributeError ''bullet_symbol'')
   \<and> clean U t (Some default_CleanConfig) = Inl (AttributeError ''bullet_symbol'')
   \<and> clean_twice U t (Some default_CleanConfig) = Inl (AttributeError ''bullet_symbol'')
   \<and> (\<nexists>u. clean U t None = Inr u)
   \<and> (\<nexists>u. clean U t (Some default_CleanConfig) = Inr u)"
proof -
  have "normalize_bullets default_CleanConfig"
    by (simp add: default_CleanConfig_def)
  then have "clean U t (Some default_CleanConfig) = Inl (AttributeError ''bullet_symbol'')"
    by (rule clean_raises_with_bullets)
  then show ?thesis
    by (simp add: clean_twice_def clean_raises_by_default)
qed

theorem clean_twice_raises_by_default_witness:
  "clean ucd_ru hyphen_page_text None = Inl (AttributeError ''bullet_symbol'')
   \<and> clean_twice ucd_ru hyphen_page_text None = Inl (AttributeError ''bullet_symbol'')
   \<and> clean_twice ucd_ru [97, 98, 99] (Some default_CleanConfig)
       = Inl (AttributeError ''bullet_symbol'')"
  using clean_twice_raises_by_default [of ucd_ru hyphen_page_text]
    clean_twice_raises_by_default [of ucd_ru "[97, 98, 99]"]
  by simp

end
